theory Spec2Isabelle
  imports Main "HOL-Library.Word" "HOL-Library.AList"
begin

unbundle bit_operations_syntax

section \<open>Python strings and integers\<close>

text \<open>
  A Python \<open>str\<close> is modelled as a \<open>string\<close> whose characters are the code points
  below 256. The helpers below follow the built-ins the program calls:
  \<open>str.split(sep)\<close>, \<open>int(str)\<close> with its stripping of white space, \<open>str.upper()\<close>, \<open>str.lower()\<close>
  and \<open>str.replace(old, new)\<close>.
\<close>

definition is_digit :: "char \<Rightarrow> bool" where
  "is_digit c = (48 \<le> (of_char c :: nat) \<and> (of_char c :: nat) \<le> 57)"

definition digit_val :: "char \<Rightarrow> int" where
  "digit_val c = int (of_char c) - 48"

text \<open>
  The white space \<open>int(str)\<close> skips at both ends: the ASCII characters tab to
  carriage return and the space, and the two code points below 256 that Python turns
  into a space first (U+0085 and U+00A0). The separators U+001C to U+001F stay and make
  \<open>int\<close> raise.
\<close>

definition is_space :: "char \<Rightarrow> bool" where
  "is_space c = ((of_char c :: nat) \<in> {9, 10, 11, 12, 13, 32, 133, 160})"

definition strip :: "string \<Rightarrow> string" where
  "strip s = rev (dropWhile is_space (rev (dropWhile is_space s)))"

text \<open>\<open>s.split(sep)\<close> for a one-character separator: always at least one piece.\<close>

fun split_sep :: "char \<Rightarrow> string \<Rightarrow> string list" where
  "split_sep sep [] = [[]]"
| "split_sep sep (c # cs) =
     (if c = sep then [] # split_sep sep cs
      else (case split_sep sep cs of
              [] \<Rightarrow> [[c]]
            | p # ps \<Rightarrow> (c # p) # ps))"

text \<open>
  The digits of a decimal literal, with Python's single underscores between digits;
  \<open>None\<close> is \<open>ValueError\<close>.
\<close>

fun digits_val :: "int \<Rightarrow> string \<Rightarrow> int option" where
  "digits_val acc [] = None"
| "digits_val acc [c] = (if is_digit c then Some (acc * 10 + digit_val c) else None)"
| "digits_val acc (c # d # ds) =
     (if is_digit c
      then (if d = CHR ''_'' then digits_val (acc * 10 + digit_val c) ds
            else digits_val (acc * 10 + digit_val c) (d # ds))
      else None)"

definition py_int :: "string \<Rightarrow> int option" where
  "py_int s =
     (case strip s of
        [] \<Rightarrow> None
      | c # cs \<Rightarrow>
          if c = CHR ''-'' then map_option uminus (digits_val 0 cs)
          else if c = CHR ''+'' then digits_val 0 cs
          else digits_val 0 (c # cs))"

text \<open>
  \<open>s.replace(old, new)\<close>: the occurrences of \<open>old\<close> are found from left to right
  without overlap; an empty \<open>old\<close> matches before every character and at the end.
\<close>

function str_replace :: "string \<Rightarrow> string \<Rightarrow> string \<Rightarrow> string" where
  "str_replace old new s =
     (if old = [] then new @ concat (map (\<lambda>c. c # new) s)
      else if s = [] then []
      else if take (length old) s = old then new @ str_replace old new (drop (length old) s)
      else hd s # str_replace old new (tl s))"
  by pat_completeness auto
termination
  by (relation "measure (\<lambda>(old, new, s). length s)") auto

declare str_replace.simps [simp del]

definition upper_char :: "char \<Rightarrow> char" where
  "upper_char c =
     (if 97 \<le> (of_char c :: nat) \<and> (of_char c :: nat) \<le> 122
      then char_of ((of_char c :: nat) - 32) else c)"


text \<open>\<open>str.upper()\<close> and \<open>str.lower()\<close> on ASCII text.\<close>

definition upper :: "string \<Rightarrow> string" where
  "upper s = map upper_char s"


section \<open>JSON documents and dictionaries\<close>

text \<open>
  A decoded JSON value as \<open>json.load\<close> returns it; numbers are the integers (a float
  plays no part in the properties below).
\<close>

datatype json =
    JNull
  | JBool bool
  | JNumber int
  | JString string
  | JArray "json list"
  | JObject "(string \<times> json) list"

text \<open>
  A Python \<open>dict\<close> is an association list in insertion order. \<open>d.update(other)\<close>
  assigns the pairs of \<open>other\<close> in order: an existing key keeps its place and takes the
  new value, a new key is appended.
\<close>

type_synonym 'v dict = "(string \<times> 'v) list"

definition dict_update :: "'v dict \<Rightarrow> 'v dict \<Rightarrow> 'v dict" where
  "dict_update d other = fold (\<lambda>(k, v) acc. AList.update k v acc) other d"

definition dict_get :: "'v dict \<Rightarrow> string \<Rightarrow> 'v \<Rightarrow> 'v" where
  "dict_get d k dflt = (case map_of d k of None \<Rightarrow> dflt | Some v \<Rightarrow> v)"

text \<open>Python truth value of a decoded JSON value (\<open>not value\<close> is its negation).\<close>

fun truthy :: "json \<Rightarrow> bool" where
  "truthy JNull = False"
| "truthy (JBool b) = b"
| "truthy (JNumber n) = (n \<noteq> 0)"
| "truthy (JString s) = (s \<noteq> [])"
| "truthy (JArray xs) = (xs \<noteq> [])"
| "truthy (JObject kvs) = (kvs \<noteq> [])"

section \<open>The environment: files, database, library calls\<close>

type_synonym path = string
type_synonym filesystem = "path \<rightharpoonup> string"
type_synonym byte = "8 word"

text \<open>
  The SQLite file at \<open>sqlite_path\<close>: absent, present without the table \<open>ItemTable\<close>,
  or holding the table's rows.
\<close>

datatype database = NoFile | NoTable | ItemTable "string \<rightharpoonup> json"

text \<open>
  Every operating-system or library call that can raise is a call site; the environment
  says which of them raise in a run. \<open>DbUpsert i\<close> is the \<open>i\<close>-th
  \<open>INSERT OR REPLACE\<close> of a database update. A call that raises leaves the files as
  they were. The prefixes name the function of the call: \<open>Mid\<close> for
  \<open>update_machine_id_file\<close>, \<open>Wb\<close> for \<open>modify_workbench_js\<close>, \<open>Db\<close> for
  \<open>update_sqlite_db\<close>, \<open>St\<close> for the reads and writes of the storage file and \<open>Bk\<close> for
  the read of a backup.

  The rest of the environment is what the program obtains from outside: the JSON decoder
  and encoder, the two hash functions, the text of \<open>datetime.now().strftime(...)\<close>, the
  name \<open>NamedTemporaryFile\<close> picks, \<open>os.name == "nt"\<close>, the configured paths (\<open>None\<close>
  when the path function raises), the backup the user selects and the answer typed at the
  confirmation prompt. A translator is always present, as in every call the program
  makes, so printing a message never raises; messages other than the missing-id warning
  are not recorded.
\<close>

datatype io_call =
    MidMakedirs | MidCopy | MidWrite
  | WbStat | WbMkTemp | WbRead | WbWrite | WbClose | WbCopy | WbRemove | WbMove
  | WbChmod | WbChown | WbUnlink
  | DbConnect | DbCreate | DbUpsert nat | DbCommit | DbClose
  | StAccess | StRead | StCopy | StWrite
  | BkRead

record env =
  fails :: "io_call \<Rightarrow> bool"
  json_loads :: "string \<Rightarrow> json option"
  json_dumps :: "json \<Rightarrow> string"
  sha256 :: "byte list \<Rightarrow> byte list"
  sha512 :: "byte list \<Rightarrow> byte list"
  timestamp :: string
  tmp_name :: path
  os_name_nt :: bool
  db_path :: path
  machine_id_path :: "path option"
  workbench_path :: "path option"
  selected_backup :: "path option"
  confirm_input :: string

section \<open>Version Gate\<close>

text \<open>\<open>[int(x) for x in version.split('.')]\<close>: the first part that does not parse raises.\<close>

definition parse_parts :: "string \<Rightarrow> int list option" where
  "parse_parts v = those (map py_int (split_sep CHR ''.'' v))"

text \<open>
  The loop of \<open>compare_versions\<close> over \<open>range(max(len(v1_parts), len(v2_parts)))\<close>,
  a missing part read as 0, returning at the first difference.
\<close>

fun compare_loop :: "int list \<Rightarrow> int list \<Rightarrow> nat list \<Rightarrow> int" where
  "compare_loop v1_parts v2_parts [] = 0"
| "compare_loop v1_parts v2_parts (i # rest) =
     (let v1 = (if i < length v1_parts then v1_parts ! i else 0);
          v2 = (if i < length v2_parts then v2_parts ! i else 0)
      in if v1 < v2 then - 1
         else if v1 > v2 then 1
         else compare_loop v1_parts v2_parts rest)"

definition compare_versions :: "string \<Rightarrow> string \<Rightarrow> int option" where
  "compare_versions version1 version2 =
     (case parse_parts version1 of
        None \<Rightarrow> None
      | Some v1_parts \<Rightarrow>
          (case parse_parts version2 of
             None \<Rightarrow> None
           | Some v2_parts \<Rightarrow>
               Some (compare_loop v1_parts v2_parts
                       [0 ..< max (length v1_parts) (length v2_parts)])))"

text \<open>
  \<open>re.match(r"^\d+\.\d+\.\d+$", version)\<close>: three non-empty digit runs separated by
  dots; \<open>$\<close> also matches before one final newline.
\<close>

definition version_pattern :: "string \<Rightarrow> bool" where
  "version_pattern s =
     (let d1 = takeWhile is_digit s; r1 = dropWhile is_digit s in
      d1 \<noteq> [] \<and>
      (case r1 of
         [] \<Rightarrow> False
       | c1 # s2 \<Rightarrow>
           c1 = CHR ''.'' \<and>
           (let d2 = takeWhile is_digit s2; r2 = dropWhile is_digit s2 in
            d2 \<noteq> [] \<and>
            (case r2 of
               [] \<Rightarrow> False
             | c2 # s3 \<Rightarrow>
                 c2 = CHR ''.'' \<and>
                 (let d3 = takeWhile is_digit s3; r3 = dropWhile is_digit s3 in
                  d3 \<noteq> [] \<and> (r3 = [] \<or> r3 = [CHR 0x0A]))))))"

text \<open>Python's \<open><\<close> on tuples of integers.\<close>

fun tuple_less :: "int list \<Rightarrow> int list \<Rightarrow> bool" where
  "tuple_less [] [] = False"
| "tuple_less [] (y # ys) = True"
| "tuple_less (x # xs) [] = False"
| "tuple_less (x # xs) (y # ys) = (if x = y then tuple_less xs ys else x < y)"

text \<open>\<open>parse_version\<close>, the local function of \<open>version_check\<close>.\<close>

definition parse_version :: "string \<Rightarrow> int list option" where
  "parse_version ver = those (map py_int (split_sep CHR ''.'' ver))"

text \<open>
  \<open>version_check\<close>: every exception inside the \<open>try\<close> block ends in \<open>return False\<close>.
\<close>

definition version_check :: "string \<Rightarrow> string \<Rightarrow> string \<Rightarrow> bool" where
  "version_check version min_version max_version =
     (if \<not> version_pattern version then False
      else (case parse_version version of
              None \<Rightarrow> False
            | Some current \<Rightarrow>
                (case (if min_version = [] then Some False
                       else map_option (tuple_less current) (parse_version min_version)) of
                   None \<Rightarrow> False
                 | Some True \<Rightarrow> False
                 | Some False \<Rightarrow>
                     (case (if max_version = [] then Some False
                            else map_option (\<lambda>m. tuple_less m current)
                                   (parse_version max_version)) of
                        None \<Rightarrow> False
                      | Some True \<Rightarrow> False
                      | Some False \<Rightarrow> True))))"

text \<open>
  The order the specification describes: both lists padded with zeros to a common
  length, the first differing component deciding.
\<close>

definition pad_zero :: "nat \<Rightarrow> int list \<Rightarrow> int list" where
  "pad_zero n xs = xs @ replicate (n - length xs) 0"

fun numeric_order :: "int list \<Rightarrow> int list \<Rightarrow> int" where
  "numeric_order (x # xs) (y # ys) =
     (if x < y then - 1 else if x > y then 1 else numeric_order xs ys)"
| "numeric_order xs ys = 0"

section \<open>Identity Generator\<close>

text \<open>A lowercase hexadecimal digit, as \<open>%x\<close> and \<open>hexdigest()\<close> print it.\<close>

definition hex_digit :: "nat \<Rightarrow> char" where
  "hex_digit n = (if n < 10 then char_of (48 + n) else char_of (87 + n))"

definition hexdigest :: "byte list \<Rightarrow> string" where
  "hexdigest bs =
     concat (map (\<lambda>b. [hex_digit (unat b div 16), hex_digit (unat b mod 16)]) bs)"

text \<open>\<open>os.urandom(n)\<close> reads the next \<open>n\<close> bytes of the random source.\<close>

definition urandom :: "(nat \<Rightarrow> byte) \<Rightarrow> nat \<Rightarrow> nat \<Rightarrow> byte list" where
  "urandom rnd pos n = map rnd [pos ..< pos + n]"

definition int_from_bytes :: "byte list \<Rightarrow> 128 word" where
  "int_from_bytes bs = foldl (\<lambda>acc b. push_bit 8 acc OR ucast b) 0 bs"

text \<open>
  \<open>uuid.uuid4()\<close>: sixteen random bytes with the variant bits set to \<open>10\<close> and the
  version nibble set to 4.
\<close>

definition uuid4 :: "byte list \<Rightarrow> 128 word" where
  "uuid4 random_bytes =
     (let i0 = int_from_bytes random_bytes;
          i1 = i0 AND NOT (push_bit 48 0xc000);
          i2 = i1 OR push_bit 48 0x8000;
          i3 = i2 AND NOT (push_bit 64 0xf000)
      in i3 OR push_bit 76 4)"

text \<open>\<open>'%032x' % int\<close>: thirty-two hexadecimal digits, most significant first.\<close>

definition hex32 :: "128 word \<Rightarrow> string" where
  "hex32 w = map (\<lambda>k. hex_digit (unat (drop_bit (4 * (31 - k)) w AND 0xf))) [0 ..< 32]"

text \<open>\<open>str(UUID)\<close>: the digits in groups of 8, 4, 4, 4 and 12.\<close>

definition uuid_str :: "128 word \<Rightarrow> string" where
  "uuid_str w =
     (let h = hex32 w
      in take 8 h @ ''-'' @ take 4 (drop 8 h) @ ''-'' @ take 4 (drop 12 h) @ ''-'' @
         take 4 (drop 16 h) @ ''-'' @ drop 20 h)"

text \<open>
  \<open>os.path.dirname\<close>: the path up to its last separator, without that separator
  unless nothing else is left; on Windows the backslash separates too and a leading
  drive letter with its colon is kept (UNC prefixes are not split off).
\<close>

definition is_sep :: "env \<Rightarrow> char \<Rightarrow> bool" where
  "is_sep e c = (c = CHR ''/'' \<or> (os_name_nt e \<and> c = CHR 0x5C))"

definition dirname :: "env \<Rightarrow> path \<Rightarrow> path" where
  "dirname e p =
     (let drive = (if os_name_nt e \<and> take 1 (drop 1 p) = '':'' then take 2 p else []);
          rest = drop (length drive) p;
          head = rev (dropWhile (\<lambda>c. \<not> is_sep e c) (rev rest));
          head' = (if list_all (is_sep e) head then head
                   else rev (dropWhile (is_sep e) (rev head)))
      in drive @ head')"

text \<open>
  \<open>os.makedirs(os.path.dirname(path), exist_ok=True)\<close> raises for the empty directory
  name, and otherwise when the environment says so.
\<close>

definition makedirs_raises :: "env \<Rightarrow> path \<Rightarrow> bool" where
  "makedirs_raises e p = (dirname e p = [] \<or> fails e MidMakedirs)"

text \<open>
  \<open>MachineIDResetter.update_machine_id_file\<close>: every exception is caught and the
  result is \<open>False\<close>; a failure of the backup copy is caught on its own and the write
  still follows.
\<close>

definition update_machine_id_file :: "env \<Rightarrow> filesystem \<Rightarrow> string \<Rightarrow> bool \<times> filesystem" where
  "update_machine_id_file e fs machine_id =
     (case machine_id_path e of
        None \<Rightarrow> (False, fs)
      | Some p \<Rightarrow>
          if makedirs_raises e p then (False, fs)
          else
            (let fs1 = (case fs p of
                          None \<Rightarrow> fs
                        | Some old \<Rightarrow>
                            if fails e MidCopy then fs
                            else fs(p @ ''.backup.'' @ timestamp e \<mapsto> old))
             in if fails e MidWrite then (False, fs1)
                else (True, fs1(p \<mapsto> machine_id))))"

text \<open>
  \<open>MachineIDResetter.generate_new_ids\<close>: the four random draws in source order, the
  call of \<open>update_machine_id_file\<close> whose result is ignored, and the returned dictionary.
\<close>

definition generate_new_ids ::
  "env \<Rightarrow> (nat \<Rightarrow> byte) \<Rightarrow> filesystem \<Rightarrow> json dict \<times> filesystem" where
  "generate_new_ids e rnd fs =
     (let dev_device_id = uuid_str (uuid4 (urandom rnd 0 16));
          machine_id = hexdigest (sha256 e (urandom rnd 16 32));
          mac_machine_id = hexdigest (sha512 e (urandom rnd 48 64));
          sqm_id = ''{'' @ upper (uuid_str (uuid4 (urandom rnd 112 16))) @ ''}'';
          fs' = snd (update_machine_id_file e fs dev_device_id)
      in ([(''telemetry.devDeviceId'', JString dev_device_id),
           (''telemetry.macMachineId'', JString mac_machine_id),
           (''telemetry.machineId'', JString machine_id),
           (''telemetry.sqmId'', JString sqm_id),
           (''storage.serviceMachineId'', JString dev_device_id)], fs'))"

text \<open>The formats the specification names, as executable predicates.\<close>

definition is_lower_hex :: "char \<Rightarrow> bool" where
  "is_lower_hex c =
     (is_digit c \<or> (97 \<le> (of_char c :: nat) \<and> (of_char c :: nat) \<le> 102))"

definition is_upper_hex :: "char \<Rightarrow> bool" where
  "is_upper_hex c =
     (is_digit c \<or> (65 \<le> (of_char c :: nat) \<and> (of_char c :: nat) \<le> 70))"

definition uuid_form :: "(char \<Rightarrow> bool) \<Rightarrow> string \<Rightarrow> bool" where
  "uuid_form hexp s =
     (length s = 36 \<and>
      list_all hexp (take 8 s) \<and> s ! 8 = CHR ''-'' \<and>
      list_all hexp (take 4 (drop 9 s)) \<and> s ! 13 = CHR ''-'' \<and>
      list_all hexp (take 4 (drop 14 s)) \<and> s ! 18 = CHR ''-'' \<and>
      list_all hexp (take 4 (drop 19 s)) \<and> s ! 23 = CHR ''-'' \<and>
      list_all hexp (drop 24 s))"

definition braced_upper_uuid :: "string \<Rightarrow> bool" where
  "braced_upper_uuid s =
     (length s = 38 \<and> hd s = CHR ''{'' \<and> last s = CHR ''}'' \<and>
      uuid_form is_upper_hex (take 36 (drop 1 s)))"

section \<open>Patch Engine\<close>

text \<open>
  The \<open>patterns\<close> dictionary of \<open>modify_workbench_js\<close>, in source order: each
  pair is a search text and its replacement.
\<close>

definition patterns :: "(string \<times> string) list" where
  \<open>patterns =
     [(''B(k,D(Ln,{title:"Upgrade to Pro",size:"small",get codicon(){return A.rocket},get onClick(){return t.pay}}),null)'',
       ''B(k,D(Ln,{title:"yeongpin GitHub",size:"small",get codicon(){return A.github},get onClick(){return function(){window.open("https://github.com/yeongpin/cursor-free-vip","_blank")}}}),null)''),
      (''M(x,I(as,{title:"Upgrade to Pro",size:"small",get codicon(){return $.rocket},get onClick(){return t.pay}}),null)'',
       ''M(x,I(as,{title:"yeongpin GitHub",size:"small",get codicon(){return $.rocket},get onClick(){return function(){window.open("https://github.com/yeongpin/cursor-free-vip","_blank")}}}),null)''),
      (''<div>Pro Trial'',
       ''<div>Pro''),
      (''py-1">Auto-select'',
       ''py-1">Bypass-Version-Pin''),
      (''async getEffectiveTokenLimit(e){const n=e.modelName;if(!n)return 2e5;'',
       ''async getEffectiveTokenLimit(e){return 9000000;const n=e.modelName;if(!n)return 9e5;''),
      (''var DWr=ne("<div class=settings__item_description>You are currently signed in with <strong></strong>.");'',
       ''var DWr=ne("<div class=settings__item_description>You are currently signed in with <strong></strong>. <h1>Pro</h1>");''),
      (''notifications-toasts'',
       ''notifications-toasts hidden'')]\<close>

text \<open>
  The loop \<open>for old_pattern, new_pattern in patterns.items():
  content = content.replace(old_pattern, new_pattern)\<close>.
\<close>

definition apply_rules :: "(string \<times> string) list \<Rightarrow> string \<Rightarrow> string" where
  "apply_rules rules content = fold (\<lambda>(old_pattern, new_pattern) c. str_replace old_pattern new_pattern c) rules content"

definition apply_patterns :: "string \<Rightarrow> string" where
  "apply_patterns content = apply_rules patterns content"

text \<open>Whether \<open>old\<close> occurs in \<open>s\<close> as a substring.\<close>

fun occurs :: "string \<Rightarrow> string \<Rightarrow> bool" where
  "occurs old [] = (old = [])"
| "occurs old (c # cs) = (take (length old) (c # cs) = old \<or> occurs old cs)"

text \<open>
  The handler of \<open>modify_workbench_js\<close>: \<open>os.unlink(tmp_path)\<close> inside
  \<open>try ... except: pass\<close>, reached only when \<open>tmp_path\<close> is bound.
\<close>

definition unlink_tmp :: "env \<Rightarrow> filesystem \<Rightarrow> path \<Rightarrow> filesystem" where
  "unlink_tmp e fs tmp_path = (if fails e WbUnlink then fs else fs(tmp_path := None))"

text \<open>
  \<open>modify_workbench_js\<close> on file contents (mode bits and owner are not part of the
  model; \<open>os.chmod\<close> and \<open>os.chown\<close> remain as calls that can raise). The local
  \<open>tmp_path\<close> is bound only after \<open>tmp_file.write(content)\<close>: a failure before that
  point returns without unlinking the temporary file.
\<close>

definition modify_workbench_js :: "env \<Rightarrow> filesystem \<Rightarrow> path \<Rightarrow> bool \<times> filesystem" where
  "modify_workbench_js e fs file_path =
     (case (if fails e WbStat then None else fs file_path) of
        None \<Rightarrow> (False, fs)
      | Some st \<Rightarrow>
          if fails e WbMkTemp then (False, fs)
          else
            (let fs1 = fs(tmp_name e \<mapsto> [])
             in (case (if fails e WbRead then None else fs1 file_path) of
                   None \<Rightarrow> (False, fs1)
                 | Some original \<Rightarrow>
                     (let content = apply_patterns original
                      in if fails e WbWrite then (False, fs1)
                         else
                           (let fs2 = fs1(tmp_name e \<mapsto> content);
                                tmp_path = tmp_name e
                            in if fails e WbClose then (False, unlink_tmp e fs2 tmp_path)
                               else
                                 (let backup_path = file_path @ ''.backup.'' @ timestamp e
                                  in (case (if fails e WbCopy then None else fs2 file_path) of
                                        None \<Rightarrow> (False, unlink_tmp e fs2 tmp_path)
                                      | Some copied \<Rightarrow>
                                          (let fs3 = fs2(backup_path \<mapsto> copied)
                                           in if fs3 file_path \<noteq> None \<and> fails e WbRemove
                                              then (False, unlink_tmp e fs3 tmp_path)
                                              else
                                                (let fs4 = fs3(file_path := None)
                                                 in (case (if fails e WbMove then None
                                                           else fs4 tmp_path) of
                                                       None \<Rightarrow> (False, unlink_tmp e fs4 tmp_path)
                                                     | Some moved \<Rightarrow>
                                                         (let fs5 = (fs4(tmp_path := None))
                                                                      (file_path \<mapsto> moved)
                                                          in if fails e WbChmod
                                                             then (False, unlink_tmp e fs5 tmp_path)
                                                             else if \<not> os_name_nt e \<and> fails e WbChown
                                                             then (False, unlink_tmp e fs5 tmp_path)
                                                             else (True, fs5))))))))))))"

section \<open>Storage Mutator\<close>

text \<open>
  An open \<open>sqlite3\<close> connection: what the database file holds (the committed state) and,
  once a data-modifying statement has opened a transaction, the rows as the pending
  transaction sees them. Other connections see the committed state only.
\<close>

record connection =
  committed :: database
  pending :: "(string \<rightharpoonup> json) option"

definition rows :: "database \<Rightarrow> (string \<rightharpoonup> json)" where
  "rows db = (case db of ItemTable t \<Rightarrow> t | _ \<Rightarrow> Map.empty)"

text \<open>\<open>sqlite3.connect(path)\<close> creates the file when it does not exist.\<close>

definition connect :: "database \<Rightarrow> connection" where
  "connect db = \<lparr>committed = (case db of NoFile \<Rightarrow> NoTable | _ \<Rightarrow> db), pending = None\<rparr>"

text \<open>
  \<open>CREATE TABLE IF NOT EXISTS ItemTable\<close>, executed with no transaction open: the
  statement takes effect at once.
\<close>

definition execute_create :: "connection \<Rightarrow> connection" where
  "execute_create c = c\<lparr>committed := ItemTable (rows (committed c))\<rparr>"

text \<open>
  \<open>INSERT OR REPLACE INTO ItemTable (key, value) VALUES (?, ?)\<close>: the module opens a
  transaction before the first such statement; the row is written in the transaction.
\<close>

definition execute_upsert :: "string \<Rightarrow> json \<Rightarrow> connection \<Rightarrow> connection" where
  "execute_upsert k v c =
     c\<lparr>pending := Some ((case pending c of None \<Rightarrow> rows (committed c) | Some t \<Rightarrow> t)(k \<mapsto> v))\<rparr>"

definition commit :: "connection \<Rightarrow> connection" where
  "commit c =
     (case pending c of
        None \<Rightarrow> c
      | Some t \<Rightarrow> \<lparr>committed = ItemTable t, pending = None\<rparr>)"

text \<open>
  A connection dropped without \<open>commit()\<close> (the exception path leaves it to be
  finalised): its pending transaction is rolled back; the file keeps the committed state.
\<close>

definition abandon :: "connection \<Rightarrow> database" where
  "abandon c = committed c"

text \<open>The values \<open>sqlite3\<close> can bind as a parameter; lists and dictionaries raise.\<close>

fun bindable :: "json \<Rightarrow> bool" where
  "bindable (JArray xs) = False"
| "bindable (JObject kvs) = False"
| "bindable (JNumber n) = (- (2 ^ 63) \<le> n \<and> n < 2 ^ 63)"
| "bindable v = True"

text \<open>
  The loop \<open>for key, value in updates: cursor.execute(...)\<close>; the flag is \<open>False\<close> when
  a statement raised, with the connection as it was then.
\<close>

fun upsert_loop :: "env \<Rightarrow> nat \<Rightarrow> json dict \<Rightarrow> connection \<Rightarrow> bool \<times> connection" where
  "upsert_loop e i [] c = (True, c)"
| "upsert_loop e i ((key, val) # updates) c =
     (if fails e (DbUpsert i) \<or> \<not> bindable val then (False, c)
      else upsert_loop e (Suc i) updates (execute_upsert key val c))"

text \<open>The table after every pair of an identity set has been upserted, in order.\<close>

fun upsert_all :: "json dict \<Rightarrow> (string \<rightharpoonup> json) \<Rightarrow> (string \<rightharpoonup> json)" where
  "upsert_all [] t = t"
| "upsert_all ((k, v) # ids) t = upsert_all ids (t(k \<mapsto> v))"

text \<open>
  \<open>MachineIDResetter.update_sqlite_db\<close>; the returned database is the state of the file
  after the call.
\<close>

definition update_sqlite_db :: "env \<Rightarrow> database \<Rightarrow> json dict \<Rightarrow> bool \<times> database" where
  "update_sqlite_db e db new_ids =
     (if fails e DbConnect then (False, db)
      else
        (let conn = connect db
         in if fails e DbCreate then (False, abandon conn)
            else
              (let conn1 = execute_create conn;
                   updates = new_ids
               in (case upsert_loop e 0 updates conn1 of
                     (False, conn2) \<Rightarrow> (False, abandon conn2)
                   | (True, conn2) \<Rightarrow>
                       if fails e DbCommit then (False, abandon conn2)
                       else
                         (let conn3 = commit conn2
                          in if fails e DbClose then (False, abandon conn3)
                             else (True, committed conn3))))))"


section \<open>Reset and restore\<close>

text \<open>
  The state the orchestrators work on: the files, the database, and the trace of the
  steps and messages of interest in the order they happen.
\<close>

datatype event =
    CopyBackup path path
  | GenerateIds
  | JsonDump path json
  | UpdateSqlite bool
  | UpdateSystemIds
  | ModifyWorkbench bool
  | VersionGatePatch
  | WriteMachineId bool
  | MissingId string

record world =
  files :: filesystem
  sqlite :: database
  trace :: "event list"

definition log :: "event \<Rightarrow> world \<Rightarrow> world" where
  "log ev w = w\<lparr>trace := trace w @ [ev]\<rparr>"

text \<open>
  \<open>MachineIDResetter.reset_machine_ids\<close>. \<open>update_system_ids\<close> catches its own
  exceptions and touches no file or database of the model; so do
  \<open>check_cursor_version\<close> and \<open>patch_cursor_get_machine_id\<close>, which work on
  \<open>package.json\<close> and \<open>main.js\<close>: these steps appear in the trace only.
\<close>

definition reset_machine_ids :: "env \<Rightarrow> (nat \<Rightarrow> byte) \<Rightarrow> world \<Rightarrow> bool \<times> world" where
  "reset_machine_ids e rnd w =
     (case files w (db_path e) of
        None \<Rightarrow> (False, w)
      | Some text \<Rightarrow>
          if fails e StAccess then (False, w)
          else
            (case (if fails e StRead then None else json_loads e text) of
               None \<Rightarrow> (False, w)
             | Some config \<Rightarrow>
                 if fails e StCopy then (False, w)
                 else
                   (let backup_path = db_path e @ ''.bak.'' @ timestamp e;
                        w1 = log (CopyBackup (db_path e) backup_path)
                               (w\<lparr>files := (files w)(backup_path \<mapsto> text)\<rparr>);
                        gen = generate_new_ids e rnd (files w1);
                        new_ids = fst gen;
                        w2 = log GenerateIds (w1\<lparr>files := snd gen\<rparr>)
                    in (case config of
                          JObject cfg \<Rightarrow>
                            (let merged = JObject (dict_update cfg new_ids)
                             in if fails e StWrite then (False, w2)
                                else
                                  (let w3 = log (JsonDump (db_path e) merged)
                                              (w2\<lparr>files := (files w2)
                                                   (db_path e \<mapsto> json_dumps e merged)\<rparr>);
                                       upd = update_sqlite_db e (sqlite w3) new_ids;
                                       w4 = log (UpdateSqlite (fst upd)) (w3\<lparr>sqlite := snd upd\<rparr>);
                                       w5 = log UpdateSystemIds w4
                                   in (case workbench_path e of
                                         None \<Rightarrow> (False, w5)
                                       | Some wp \<Rightarrow>
                                           (let m = modify_workbench_js e (files w5) wp;
                                                w6 = log (ModifyWorkbench (fst m))
                                                       (w5\<lparr>files := snd m\<rparr>)
                                            in (True, log VersionGatePatch w6)))))
                        | _ \<Rightarrow> (False, w2)))))"

text \<open>The keys of an identity set, in the order both flows build it.\<close>

definition identity_keys :: "string list" where
  "identity_keys =
     [''telemetry.devDeviceId'', ''telemetry.macMachineId'', ''telemetry.machineId'',
      ''telemetry.sqmId'', ''storage.serviceMachineId'']"

text \<open>
  The dictionary \<open>ids\<close> that \<open>extract_ids_from_backup\<close> builds from the decoded
  backup with \<open>backup_data.get(key, default)\<close>.
\<close>

definition backup_ids :: "json dict \<Rightarrow> json dict" where
  "backup_ids backup_data =
     [(''telemetry.devDeviceId'',
         dict_get backup_data ''telemetry.devDeviceId'' (JString [])),
      (''telemetry.macMachineId'',
         dict_get backup_data ''telemetry.macMachineId'' (JString [])),
      (''telemetry.machineId'',
         dict_get backup_data ''telemetry.machineId'' (JString [])),
      (''telemetry.sqmId'',
         dict_get backup_data ''telemetry.sqmId'' (JString [])),
      (''storage.serviceMachineId'',
         dict_get backup_data ''storage.serviceMachineId''
           (dict_get backup_data ''telemetry.devDeviceId'' (JString [])))]"

text \<open>
  \<open>MachineIDRestorer.extract_ids_from_backup\<close>: \<open>None\<close> when the file cannot be read or
  decoded or is not an object; otherwise the five identifiers, with one
  \<open>restore.missing_id\<close> warning for each value that is false in Python's sense.
\<close>

definition extract_ids_from_backup :: "env \<Rightarrow> world \<Rightarrow> path \<Rightarrow> json dict option \<times> world" where
  "extract_ids_from_backup e w backup_path =
     (case (if fails e BkRead then None else files w backup_path) of
        None \<Rightarrow> (None, w)
      | Some text \<Rightarrow>
          (case json_loads e text of
             Some (JObject backup_data) \<Rightarrow>
               (let ids = backup_ids backup_data
                in (Some ids,
                    w\<lparr>trace := trace w @
                         map (\<lambda>kv. MissingId (fst kv)) (filter (\<lambda>kv. \<not> truthy (snd kv)) ids)\<rparr>))
           | _ \<Rightarrow> (None, w)))"

text \<open>\<open>MachineIDRestorer.update_current_file\<close>.\<close>

definition update_current_file :: "env \<Rightarrow> world \<Rightarrow> json dict \<Rightarrow> bool \<times> world" where
  "update_current_file e w ids =
     (case files w (db_path e) of
        None \<Rightarrow> (False, w)
      | Some text \<Rightarrow>
          (case (if fails e StRead then None else json_loads e text) of
             None \<Rightarrow> (False, w)
           | Some current_data \<Rightarrow>
               if fails e StCopy then (False, w)
               else
                 (let backup_path = db_path e @ ''.restore_bak.'' @ timestamp e;
                      w1 = log (CopyBackup (db_path e) backup_path)
                             (w\<lparr>files := (files w)(backup_path \<mapsto> text)\<rparr>)
                  in (case current_data of
                        JObject cur \<Rightarrow>
                          (let merged = JObject (dict_update cur ids)
                           in if fails e StWrite then (False, w1)
                              else (True,
                                    log (JsonDump (db_path e) merged)
                                      (w1\<lparr>files := (files w1)
                                           (db_path e \<mapsto> json_dumps e merged)\<rparr>)))
                      | _ \<Rightarrow> (False, w1)))))"



text \<open>
  A concrete environment, random source and starting state, used to run the model. The
  decoder knows three documents: a storage file with one foreign key, a backup whose
  identity fields are all empty strings, and a backup without
  \<open>storage.serviceMachineId\<close>.
\<close>

definition storage_text :: string where
  \<open>storage_text = ''{"foo": "bar"}''\<close>

definition empty_backup_text :: string where
  \<open>empty_backup_text = ''{"telemetry.devDeviceId": "", "telemetry.macMachineId": "", "telemetry.machineId": "", "telemetry.sqmId": "", "storage.serviceMachineId": ""}''\<close>

definition old_backup_text :: string where
  \<open>old_backup_text = ''{"telemetry.devDeviceId": "abc"}''\<close>

definition example_loads :: "string \<Rightarrow> json option" where
  "example_loads t =
     (if t = storage_text then Some (JObject [(''foo'', JString ''bar'')])
      else if t = empty_backup_text
      then Some (JObject (map (\<lambda>k. (k, JString [])) identity_keys))
      else if t = old_backup_text
      then Some (JObject [(''telemetry.devDeviceId'', JString ''abc'')])
      else None)"

definition example_env :: env where
  "example_env =
     \<lparr>fails = (\<lambda>c. False),
      json_loads = example_loads,
      json_dumps = (\<lambda>j. ''json''),
      sha256 = (\<lambda>m. replicate 32 0),
      sha512 = (\<lambda>m. replicate 64 0),
      timestamp = ''20250101_000000'',
      tmp_name = ''/tmp/tmpfile'',
      os_name_nt = False,
      db_path = ''storage.json'',
      machine_id_path = Some ''cursor/machineId'',
      workbench_path = Some ''workbench.js'',
      selected_backup = Some ''storage.json.bak.1'',
      confirm_input = ''y''\<rparr>"

definition example_world :: world where
  "example_world =
     \<lparr>files = [''storage.json'' \<mapsto> storage_text,
               ''storage.json.bak.1'' \<mapsto> empty_backup_text,
               ''storage.json.bak.2'' \<mapsto> old_backup_text,
               ''workbench.js'' \<mapsto> ''x''],
      sqlite = NoFile,
      trace = []\<rparr>"

definition example_rnd :: "nat \<Rightarrow> byte" where
  "example_rnd k = 0"

section \<open>Properties of the Version Gate\<close>

lemma not_digit_underscore: "\<not> is_digit CHR ''_''" by (simp add: is_digit_def)
lemma not_digit_dot: "\<not> is_digit CHR ''.''" by (simp add: is_digit_def)
lemma digit_not_space: "is_digit c \<Longrightarrow> \<not> is_space c"
  by (auto simp: is_digit_def is_space_def)
lemma digit_not_sign: "is_digit c \<Longrightarrow> c \<noteq> CHR ''-'' \<and> c \<noteq> CHR ''+''"
  by (auto simp: is_digit_def)

lemma digits_val_Some:
  "ds \<noteq> [] \<Longrightarrow> list_all is_digit ds \<Longrightarrow> \<exists>n. digits_val acc ds = Some n"
proof (induction acc ds rule: digits_val.induct)
  case (3 acc c d ds)
  then show ?case using not_digit_underscore by auto
qed auto

lemma strip_digits: "ds \<noteq> [] \<Longrightarrow> list_all is_digit ds \<Longrightarrow> strip ds = ds"
proof -
  assume a: "ds \<noteq> []" "list_all is_digit ds"
  then have h: "\<not> is_space (hd ds)" and l: "\<not> is_space (last ds)"
    by (auto simp: list_all_iff digit_not_space)
  from a h have 1: "dropWhile is_space ds = ds" by (cases ds) auto
  from a l have 2: "dropWhile is_space (rev ds) = rev ds"
    by (cases "rev ds") (auto simp: last_rev hd_rev[symmetric] dest: arg_cong[where f=hd])
  show ?thesis by (simp add: strip_def 1 2)
qed

lemma strip_digits_nl:
  "ds \<noteq> [] \<Longrightarrow> list_all is_digit ds \<Longrightarrow> strip (ds @ [CHR 0x0A]) = ds"
proof -
  assume a: "ds \<noteq> []" "list_all is_digit ds"
  then have h: "\<not> is_space (hd ds)" and l: "\<not> is_space (last ds)"
    by (auto simp: list_all_iff digit_not_space)
  have sp: "is_space (CHR 0x0A)" by (simp add: is_space_def)
  from a h have 1: "dropWhile is_space (ds @ [CHR 0x0A]) = ds @ [CHR 0x0A]" by (cases ds) auto
  from a l have 2: "dropWhile is_space (rev ds) = rev ds"
    by (cases "rev ds") (auto simp: last_rev hd_rev[symmetric] dest: arg_cong[where f=hd])
  show ?thesis using sp by (simp add: strip_def 1 2)
qed

lemma py_int_digits:
  assumes "ds \<noteq> []" "list_all is_digit ds"
  shows "\<exists>n. py_int ds = Some n" and "\<exists>n. py_int (ds @ [CHR 0x0A]) = Some n"
proof -
  obtain c cs where ds: "ds = c # cs" using assms(1) by (cases ds) auto
  with assms(2) have c: "is_digit c" by simp
  obtain n where n: "digits_val 0 (c # cs) = Some n"
    using digits_val_Some[OF assms] ds by blast
  have s1: "strip (c # cs) = c # cs" using strip_digits[OF assms] ds by simp
  have s2: "strip (c # cs @ [CHR 0x0A]) = c # cs" using strip_digits_nl[OF assms] ds by simp
  show "\<exists>n. py_int ds = Some n"
    using n digit_not_sign[OF c] by (simp add: py_int_def s1 ds)
  show "\<exists>n. py_int (ds @ [CHR 0x0A]) = Some n"
    using n digit_not_sign[OF c] by (simp add: py_int_def s2 ds)
qed

lemma split_sep_no_sep: "sep \<notin> set d \<Longrightarrow> split_sep sep d = [d]"
  by (induction d) auto

lemma split_sep_append:
  "sep \<notin> set d \<Longrightarrow> split_sep sep (d @ sep # r) = d # split_sep sep r"
  by (induction d) auto

lemma takeWhile_digits: "list_all is_digit (takeWhile is_digit s)"
  by (simp add: list_all_iff) (meson set_takeWhileD)

lemma no_dot_digits: "list_all is_digit d \<Longrightarrow> CHR ''.'' \<notin> set d"
  using not_digit_dot by (auto simp: list_all_iff)

lemma version_pattern_parts:
  assumes "version_pattern s"
  shows "\<exists>a b c. those (map py_int (split_sep CHR ''.'' s)) = Some [a, b, c]"
proof -
  define d1 where "d1 = takeWhile is_digit s"
  define r1 where "r1 = dropWhile is_digit s"
  have s: "s = d1 @ r1" by (simp add: d1_def r1_def)
  from assms have n1: "d1 \<noteq> []" by (simp add: version_pattern_def Let_def d1_def)
  from assms obtain s2 where r1: "r1 = CHR ''.'' # s2"
    by (auto simp: version_pattern_def Let_def r1_def split: list.splits)
  define d2 where "d2 = takeWhile is_digit s2"
  define r2 where "r2 = dropWhile is_digit s2"
  have s2: "s2 = d2 @ r2" by (simp add: d2_def r2_def)
  from assms r1 have n2: "d2 \<noteq> []"
    by (auto simp: version_pattern_def Let_def r1_def d2_def split: list.splits)
  from assms r1 obtain s3 where r2: "r2 = CHR ''.'' # s3"
    by (auto simp: version_pattern_def Let_def r1_def r2_def split: list.splits)
  define d3 where "d3 = takeWhile is_digit s3"
  define r3 where "r3 = dropWhile is_digit s3"
  have s3: "s3 = d3 @ r3" by (simp add: d3_def r3_def)
  from assms r1 r2 have n3: "d3 \<noteq> []" and e3: "r3 = [] \<or> r3 = [CHR 0x0A]"
    by (auto simp: version_pattern_def Let_def r1_def r2_def d3_def r3_def split: list.splits)
  have g1: "list_all is_digit d1" and g2: "list_all is_digit d2" and g3: "list_all is_digit d3"
    by (simp_all add: d1_def d2_def d3_def takeWhile_digits)
  have nl: "CHR ''.'' \<notin> set (d3 @ r3)" using e3 no_dot_digits[OF g3] by auto
  have sp: "split_sep CHR ''.'' s = [d1, d2, d3 @ r3]"
    unfolding s r1 s2 r2 s3
    by (simp only: split_sep_append[OF no_dot_digits[OF g1]]
        split_sep_append[OF no_dot_digits[OF g2]] split_sep_no_sep[OF nl])
  obtain a where a: "py_int d1 = Some a" using py_int_digits(1)[OF n1 g1] by blast
  obtain b where b: "py_int d2 = Some b" using py_int_digits(1)[OF n2 g2] by blast
  obtain c where c: "py_int (d3 @ r3) = Some c"
    using py_int_digits[OF n3 g3] e3 by auto
  show ?thesis by (simp add: sp a b c)
qed

lemma compare_loop3:
  "compare_loop [a, b, c] [x, y, z] [0 ..< 3] =
     (if tuple_less [a, b, c] [x, y, z] then - 1
      else if tuple_less [x, y, z] [a, b, c] then 1 else 0)"
proof -
  have u: "[0 ..< 3] = [0, 1, 2]" by (simp add: upt_rec)
  show ?thesis unfolding u by (simp add: Let_def)
qed

lemma nth_pad_zero:
  "i < n \<Longrightarrow> pad_zero n xs ! i = (if i < length xs then xs ! i else 0)"
  by (auto simp: pad_zero_def nth_append)

lemma compare_loop_numeric:
  "length xs \<le> n \<Longrightarrow> length ys \<le> n \<Longrightarrow> k \<le> n \<Longrightarrow>
   compare_loop xs ys [k ..< n] =
     numeric_order (drop k (pad_zero n xs)) (drop k (pad_zero n ys))"
proof (induction "n - k" arbitrary: k)
  case 0
  then show ?case by (simp add: pad_zero_def)
next
  case (Suc m)
  then have kn: "k < n" by simp
  have lx: "length (pad_zero n xs) = n" and ly: "length (pad_zero n ys) = n"
    using Suc.prems by (simp_all add: pad_zero_def)
  have dx: "drop k (pad_zero n xs) = pad_zero n xs ! k # drop (Suc k) (pad_zero n xs)"
    using kn lx by (simp add: Cons_nth_drop_Suc)
  have dy: "drop k (pad_zero n ys) = pad_zero n ys ! k # drop (Suc k) (pad_zero n ys)"
    using kn ly by (simp add: Cons_nth_drop_Suc)
  have ih: "compare_loop xs ys [Suc k ..< n] =
     numeric_order (drop (Suc k) (pad_zero n xs)) (drop (Suc k) (pad_zero n ys))"
    using Suc.hyps(1)[of "Suc k"] Suc.hyps(2) Suc.prems kn by simp
  show ?case
    unfolding dx dy using kn
    by (simp add: upt_rec[of k n] ih nth_pad_zero Let_def)
qed


lemma tuple_less_asym: "tuple_less xs ys \<Longrightarrow> \<not> tuple_less ys xs"
  by (induction xs ys rule: tuple_less.induct) (auto split: if_splits)

lemma three_way_range:
  "Some (if p then - 1 else if q then 1 else (0::int)) \<in> {Some (- 1), Some 0, Some 1}"
  by simp

lemma three_way_check:
  "\<not> (p \<and> q') \<Longrightarrow>
   (\<not> l \<and> \<not> q') =
     (Some (if l then - 1 else if g then 1 else (0::int)) \<noteq> Some (- 1) \<and>
      Some (if p then - 1 else if q' then 1 else (0::int)) \<noteq> Some 1)"
  by auto

lemma compare_versions3:
  assumes "parse_parts v = Some [a, b, c]" "parse_parts w = Some [x, y, z]"
  shows "compare_versions v w =
     Some (if tuple_less [a, b, c] [x, y, z] then - 1
           else if tuple_less [x, y, z] [a, b, c] then 1 else 0)"
proof -
  have m: "max (length [a, b, c]) (length [x, y, z]) = 3" by simp
  show ?thesis
    unfolding compare_versions_def assms option.case m compare_loop3 ..
qed

text \<open>
  Claim C7. \<open>compare_versions\<close> returns \<open>-1\<close>, \<open>0\<close> and \<open>1\<close> on the three
  examples of the specification; on any two versions that parse it is the numeric,
  component-wise order of the two lists of parts padded with zeros to a common length;
  and for inputs of the form \<open>N.N.N\<close> the range check of \<open>version_check\<close> accepts a
  version exactly when \<open>compare_versions\<close> does not put it below the minimum or above
  the maximum.
\<close>

theorem version_comparison_numeric:
  "compare_versions ''0.9.0'' ''0.10.0'' = Some (- 1) \<and>
   compare_versions ''0.45.0'' ''0.45.0'' = Some 0 \<and>
   compare_versions ''1.0.0'' ''0.9.9'' = Some 1 \<and>
   (parse_parts v1 = Some p1 \<and> parse_parts v2 = Some p2 \<longrightarrow>
      compare_versions v1 v2 =
        Some (numeric_order (pad_zero (max (length p1) (length p2)) p1)
                            (pad_zero (max (length p1) (length p2)) p2))) \<and>
   (version_pattern v \<and> version_pattern lo \<and> version_pattern hi \<longrightarrow>
      compare_versions v lo \<in> {Some (- 1), Some 0, Some 1} \<and>
      compare_versions v hi \<in> {Some (- 1), Some 0, Some 1} \<and>
      version_check v lo hi =
        (compare_versions v lo \<noteq> Some (- 1) \<and> compare_versions v hi \<noteq> Some 1))"
proof -
  have e1: "compare_versions ''0.9.0'' ''0.10.0'' = Some (- 1)" by code_simp
  have e2: "compare_versions ''0.45.0'' ''0.45.0'' = Some 0" by code_simp
  have e3: "compare_versions ''1.0.0'' ''0.9.9'' = Some 1" by code_simp
  have num: "compare_versions v1 v2 =
        Some (numeric_order (pad_zero (max (length p1) (length p2)) p1)
                            (pad_zero (max (length p1) (length p2)) p2))"
    if "parse_parts v1 = Some p1" "parse_parts v2 = Some p2"
    using that compare_loop_numeric[of p1 "max (length p1) (length p2)" p2 0]
    by (simp add: compare_versions_def)
  have rng: "compare_versions v lo \<in> {Some (- 1), Some 0, Some 1} \<and>
      compare_versions v hi \<in> {Some (- 1), Some 0, Some 1} \<and>
      version_check v lo hi =
        (compare_versions v lo \<noteq> Some (- 1) \<and> compare_versions v hi \<noteq> Some 1)"
    if wf: "version_pattern v" "version_pattern lo" "version_pattern hi"
  proof -
    obtain a b c where pv: "those (map py_int (split_sep CHR ''.'' v)) = Some [a, b, c]"
      using version_pattern_parts[OF wf(1)] by blast
    obtain a1 b1 c1 where pl: "those (map py_int (split_sep CHR ''.'' lo)) = Some [a1, b1, c1]"
      using version_pattern_parts[OF wf(2)] by blast
    obtain a2 b2 c2 where ph: "those (map py_int (split_sep CHR ''.'' hi)) = Some [a2, b2, c2]"
      using version_pattern_parts[OF wf(3)] by blast
    have nl: "lo \<noteq> []" and nh: "hi \<noteq> []"
      using wf(2,3) by (auto simp: version_pattern_def)
    have cl: "compare_versions v lo =
        Some (if tuple_less [a, b, c] [a1, b1, c1] then - 1
              else if tuple_less [a1, b1, c1] [a, b, c] then 1 else 0)"
      by (rule compare_versions3) (simp_all only: parse_parts_def pv pl)
    have ch: "compare_versions v hi =
        Some (if tuple_less [a, b, c] [a2, b2, c2] then - 1
              else if tuple_less [a2, b2, c2] [a, b, c] then 1 else 0)"
      by (rule compare_versions3) (simp_all only: parse_parts_def pv ph)
    have vc: "version_check v lo hi =
        (\<not> tuple_less [a, b, c] [a1, b1, c1] \<and> \<not> tuple_less [a2, b2, c2] [a, b, c])"
      using wf(1) nl nh
      by (simp add: version_check_def parse_version_def pv pl ph
            del: tuple_less.simps split: bool.splits)
    have asym: "\<not> (tuple_less [a, b, c] [a2, b2, c2] \<and> tuple_less [a2, b2, c2] [a, b, c])"
      using tuple_less_asym by blast
    show ?thesis
      unfolding cl ch vc
      by (intro conjI three_way_range three_way_check[OF asym])
  qed
  from e1 e2 e3 num rng show ?thesis by blast
qed

theorem version_comparison_numeric_witness:
  "parse_parts ''1.2'' = Some [1, 2] \<and> parse_parts ''1.2.0'' = Some [1, 2, 0] \<and>
   compare_versions ''1.2'' ''1.2.0'' = Some 0 \<and>
   version_pattern ''0.46.0'' \<and> version_pattern ''0.45.0'' \<and> version_pattern ''0.48.7'' \<and>
   version_check ''0.46.0'' ''0.45.0'' ''0.48.7'' =
     (compare_versions ''0.46.0'' ''0.45.0'' \<noteq> Some (- 1) \<and>
      compare_versions ''0.46.0'' ''0.48.7'' \<noteq> Some 1)"
proof -
  have p1: "parse_parts ''1.2'' = Some [1, 2]" by code_simp
  have p2: "parse_parts ''1.2.0'' = Some [1, 2, 0]" by code_simp
  have w1: "version_pattern ''0.46.0''" by code_simp
  have w2: "version_pattern ''0.45.0''" by code_simp
  have w3: "version_pattern ''0.48.7''" by code_simp
  have n: "numeric_order (pad_zero (max (length [1, 2]) (length [1, 2, 0])) [1, 2])
             (pad_zero (max (length [1, 2]) (length [1, 2, 0])) [1, 2, 0]) = 0"
    by (simp add: pad_zero_def)
  from version_comparison_numeric
         [of "''1.2''" "[1, 2]" "''1.2.0''" "[1, 2, 0]" "''0.46.0''" "''0.45.0''" "''0.48.7''"]
       p1 p2 w1 w2 w3
  show ?thesis unfolding n by simp
qed


section \<open>Properties of the Identity Generator\<close>

lemma hex_digit_lower: "n < 16 \<Longrightarrow> is_lower_hex (hex_digit n)"
  by (simp add: hex_digit_def is_lower_hex_def is_digit_def)

lemma nibble_bound: "unat ((x :: 128 word) AND 0xf) < 16"
proof -
  have "unat (x AND 0xf) \<le> unat (0xf :: 128 word)"
    by (rule word_and_le1 [THEN word_le_nat_alt [THEN iffD1]])
  then show ?thesis by simp
qed

lemma hex32_props: "length (hex32 w) = 32" "list_all is_lower_hex (hex32 w)"
  by (simp_all add: hex32_def list_all_iff hex_digit_lower nibble_bound)

lemma list_all_take: "list_all P xs \<Longrightarrow> list_all P (take n xs)"
  by (auto simp: list_all_iff dest: in_set_takeD)

lemma list_all_drop: "list_all P xs \<Longrightarrow> list_all P (drop n xs)"
  by (auto simp: list_all_iff dest: in_set_dropD)

lemma uuid_layout:
  assumes "length h = 32" "list_all P h"
  shows "uuid_form P (take 8 h @ ''-'' @ take 4 (drop 8 h) @ ''-'' @ take 4 (drop 12 h) @ ''-'' @
         take 4 (drop 16 h) @ ''-'' @ drop 20 h)"
proof -
  define a where "a = take 8 h"
  define b where "b = take 4 (drop 8 h)"
  define c where "c = take 4 (drop 12 h)"
  define d where "d = take 4 (drop 16 h)"
  define f where "f = drop 20 h"
  have len: "length a = 8" "length b = 4" "length c = 4" "length d = 4" "length f = 12"
    using assms(1) by (simp_all add: a_def b_def c_def d_def f_def)
  have all: "list_all P a" "list_all P b" "list_all P c" "list_all P d" "list_all P f"
    using assms(2) by (simp_all add: a_def b_def c_def d_def f_def list_all_take list_all_drop)
  show ?thesis
    unfolding a_def[symmetric] b_def[symmetric] c_def[symmetric] d_def[symmetric] f_def[symmetric]
    using len all
    by (simp add: uuid_form_def nth_append)
qed

lemma uuid_str_form: "uuid_form is_lower_hex (uuid_str w)"
  unfolding uuid_str_def Let_def by (rule uuid_layout) (rule hex32_props)+

lemma upper_char_hex: "is_lower_hex c \<Longrightarrow> is_upper_hex (upper_char c)"
  by (auto simp: is_lower_hex_def is_upper_hex_def is_digit_def upper_char_def)

lemma upper_char_dash: "upper_char CHR ''-'' = CHR ''-''"
  by (simp add: upper_char_def)

lemma upper_uuid_form:
  assumes "uuid_form is_lower_hex s"
  shows "uuid_form is_upper_hex (upper s)"
proof -
  have m: "list_all is_lower_hex xs \<Longrightarrow> list_all is_upper_hex (map upper_char xs)" for xs
    by (simp add: list_all_iff upper_char_hex)
  from assms show ?thesis
    by (simp add: uuid_form_def upper_def take_map drop_map m upper_char_dash)
qed

lemma hexdigest_props:
  "length (hexdigest bs) = 2 * length bs" "list_all is_lower_hex (hexdigest bs)"
proof -
  show "length (hexdigest bs) = 2 * length bs"
    by (induction bs) (simp_all add: hexdigest_def)
  have "unat b div 16 < 16" for b :: byte
    using unsigned_less[of b, where 'a=nat] by (simp add: less_mult_imp_div_less)
  then show "list_all is_lower_hex (hexdigest bs)"
    by (induction bs) (simp_all add: hexdigest_def hex_digit_lower)
qed

lemma braced_form:
  assumes "uuid_form is_upper_hex u"
  shows "braced_upper_uuid (''{'' @ u @ ''}'')"
  using assms by (simp add: braced_upper_uuid_def uuid_form_def)

text \<open>
  Claim C1. Whatever the random source, the filesystem and the failing calls, and for
  hash functions with digests of 32 and 64 bytes, the dictionary returned by
  \<open>generate_new_ids\<close> has the five keys in source order; \<open>devDeviceId\<close> is
  lowercase UUID text (groups of 8, 4, 4, 4 and 12 hexadecimal digits separated by
  hyphens), \<open>machineId\<close> is 64 and \<open>macMachineId\<close> 128 lowercase hexadecimal
  characters, \<open>sqmId\<close> is an uppercase UUID between braces, and
  \<open>serviceMachineId\<close> is the \<open>devDeviceId\<close> value.
\<close>

theorem generate_new_ids_formats:
  assumes "\<forall>m. length (sha256 e m) = 32" and "\<forall>m. length (sha512 e m) = 64"
  shows "\<exists>dev mac mid sqm.
           fst (generate_new_ids e rnd fs) =
             [(''telemetry.devDeviceId'', JString dev),
              (''telemetry.macMachineId'', JString mac),
              (''telemetry.machineId'', JString mid),
              (''telemetry.sqmId'', JString sqm),
              (''storage.serviceMachineId'', JString dev)] \<and>
           uuid_form is_lower_hex dev \<and>
           length mid = 64 \<and> list_all is_lower_hex mid \<and>
           length mac = 128 \<and> list_all is_lower_hex mac \<and>
           braced_upper_uuid sqm"
proof -
  let ?dev = "uuid_str (uuid4 (urandom rnd 0 16))"
  let ?mid = "hexdigest (sha256 e (urandom rnd 16 32))"
  let ?mac = "hexdigest (sha512 e (urandom rnd 48 64))"
  let ?sqm = "''{'' @ upper (uuid_str (uuid4 (urandom rnd 112 16))) @ ''}''"
  have ids: "fst (generate_new_ids e rnd fs) =
             [(''telemetry.devDeviceId'', JString ?dev),
              (''telemetry.macMachineId'', JString ?mac),
              (''telemetry.machineId'', JString ?mid),
              (''telemetry.sqmId'', JString ?sqm),
              (''storage.serviceMachineId'', JString ?dev)]"
    by (simp add: generate_new_ids_def Let_def)
  have dev: "uuid_form is_lower_hex ?dev" by (rule uuid_str_form)
  have mid: "length ?mid = 64" "list_all is_lower_hex ?mid"
    using assms(1) by (simp_all add: hexdigest_props)
  have mac: "length ?mac = 128" "list_all is_lower_hex ?mac"
    using assms(2) by (simp_all add: hexdigest_props)
  have sqm: "braced_upper_uuid ?sqm"
    by (rule braced_form) (rule upper_uuid_form, rule uuid_str_form)
  from ids dev mid mac sqm show ?thesis by blast
qed

theorem generate_new_ids_formats_witness:
  "(\<forall>m. length (sha256 example_env m) = 32) \<and>
   (\<forall>m. length (sha512 example_env m) = 64) \<and>
   (\<exists>dev mac mid sqm.
      fst (generate_new_ids example_env example_rnd Map.empty) =
        [(''telemetry.devDeviceId'', JString dev),
         (''telemetry.macMachineId'', JString mac),
         (''telemetry.machineId'', JString mid),
         (''telemetry.sqmId'', JString sqm),
         (''storage.serviceMachineId'', JString dev)] \<and>
      uuid_form is_lower_hex dev \<and>
      length mid = 64 \<and> list_all is_lower_hex mid \<and>
      length mac = 128 \<and> list_all is_lower_hex mac \<and>
      braced_upper_uuid sqm)"
proof -
  have h1: "\<forall>m. length (sha256 example_env m) = 32" by (simp add: example_env_def)
  have h2: "\<forall>m. length (sha512 example_env m) = 64" by (simp add: example_env_def)
  from generate_new_ids_formats [OF h1 h2, of example_rnd Map.empty] h1 h2
  show ?thesis by blast
qed

text \<open>
  Claim C8, as stated, fails: \<open>generate_new_ids\<close> calls
  \<open>update_machine_id_file\<close>, which writes the new device id to the machineId file.
  With the machineId path \<open>cursor/machineId\<close>, no call failing and an empty
  filesystem at the start, the file exists afterwards and holds the new device id.
\<close>

theorem generate_new_ids_writes_machine_id_file:
  "machine_id_path example_env = Some ''cursor/machineId'' \<and>
   (Map.empty :: filesystem) ''cursor/machineId'' = None \<and>
   snd (generate_new_ids example_env example_rnd Map.empty) ''cursor/machineId'' =
     Some (uuid_str (uuid4 (urandom example_rnd 0 16)))"
proof -
  have d: "dirname example_env ''cursor/machineId'' = ''cursor''"
    by (simp add: dirname_def is_sep_def example_env_def)
  have m: "\<not> makedirs_raises example_env ''cursor/machineId''"
    by (simp add: makedirs_raises_def d) (simp add: example_env_def)
  have p: "machine_id_path example_env = Some ''cursor/machineId''"
    and w: "\<not> fails example_env MidWrite"
    by (simp_all add: example_env_def)
  show ?thesis
    using m p w by (simp add: generate_new_ids_def update_machine_id_file_def Let_def)
qed

text \<open>
  Claim C8, amended. The dictionary returned by \<open>generate_new_ids\<close> depends on the
  random source (and the hash functions) only: not on the filesystem, the paths or the
  calls that fail. The function does write: through \<open>update_machine_id_file\<close> it may
  change the machineId file and the backup file
  \<open><machineId path>.backup.<timestamp>\<close>; every other file is left as it was.
\<close>

theorem generate_new_ids_ids_pure_files_framed:
  "(sha256 e' = sha256 e \<and> sha512 e' = sha512 e \<longrightarrow>
      fst (generate_new_ids e' rnd fs') = fst (generate_new_ids e rnd fs)) \<and>
   (Some q \<noteq> machine_id_path e \<and>
    Some q \<noteq> map_option (\<lambda>p. p @ ''.backup.'' @ timestamp e) (machine_id_path e) \<longrightarrow>
      snd (generate_new_ids e rnd fs) q = fs q)"
proof -
  have frame: "snd (update_machine_id_file e fs v) q = fs q"
    if "Some q \<noteq> machine_id_path e"
       "Some q \<noteq> map_option (\<lambda>p. p @ ''.backup.'' @ timestamp e) (machine_id_path e)" for v
    using that
    by (auto simp: update_machine_id_file_def Let_def split: option.splits)
  show ?thesis
    using frame by (simp add: generate_new_ids_def Let_def)
qed

theorem generate_new_ids_ids_pure_files_framed_witness:
  "sha256 (example_env\<lparr>machine_id_path := None\<rparr>) = sha256 example_env \<and>
   sha512 (example_env\<lparr>machine_id_path := None\<rparr>) = sha512 example_env \<and>
   fst (generate_new_ids (example_env\<lparr>machine_id_path := None\<rparr>) example_rnd
          (Map.empty(''cursor/machineId'' \<mapsto> ''old''))) =
     fst (generate_new_ids example_env example_rnd Map.empty) \<and>
   Some ''storage.json'' \<noteq> machine_id_path example_env \<and>
   Some ''storage.json'' \<noteq>
     map_option (\<lambda>p. p @ ''.backup.'' @ timestamp example_env) (machine_id_path example_env) \<and>
   snd (generate_new_ids example_env example_rnd Map.empty) ''storage.json'' =
     (Map.empty :: filesystem) ''storage.json''"
proof -
  have h: "sha256 (example_env\<lparr>machine_id_path := None\<rparr>) = sha256 example_env"
          "sha512 (example_env\<lparr>machine_id_path := None\<rparr>) = sha512 example_env"
    by simp_all
  have q: "Some ''storage.json'' \<noteq> machine_id_path example_env"
          "Some ''storage.json'' \<noteq>
             map_option (\<lambda>p. p @ ''.backup.'' @ timestamp example_env)
               (machine_id_path example_env)"
    by (simp_all add: example_env_def)
  from generate_new_ids_ids_pure_files_framed
         [where e' = "example_env\<lparr>machine_id_path := None\<rparr>" and e = example_env
            and rnd = example_rnd and fs' = "Map.empty(''cursor/machineId'' \<mapsto> ''old'')"
            and q = "''storage.json''" and fs = Map.empty]
       h q
  show ?thesis by blast
qed


section \<open>Properties of the Patch Engine\<close>

lemma str_replace_absent: "\<not> occurs old s \<Longrightarrow> str_replace old new s = s"
proof (induction s)
  case Nil
  then have "old \<noteq> []" by simp
  then show ?case by (simp add: str_replace.simps[of old new "[]"])
next
  case (Cons c cs)
  then have n: "take (length old) (c # cs) \<noteq> old" and r: "\<not> occurs old cs" by simp_all
  from n have "old \<noteq> []" by auto
  with n Cons.IH[OF r] show ?case
    by (simp add: str_replace.simps[of old new "c # cs"])
qed

lemma apply_rules_absent:
  "(\<forall>r \<in> set rules. \<not> occurs (fst r) s) \<Longrightarrow> apply_rules rules s = s"
  by (induction rules) (auto simp: apply_rules_def str_replace_absent)

text \<open>
  Claim C3, as stated, fails: the last rule replaces \<open>notifications-toasts\<close> by
  \<open>notifications-toasts hidden\<close>, which contains the search text again, so a second
  application appends \<open>hidden\<close> once more.
\<close>

theorem apply_patterns_twice_differs:
  \<open>apply_patterns ''notifications-toasts'' = ''notifications-toasts hidden'' \<and>
   apply_patterns (apply_patterns ''notifications-toasts'') =
     ''notifications-toasts hidden hidden''\<close>
proof -
  have a: \<open>apply_patterns ''notifications-toasts'' = ''notifications-toasts hidden''\<close>
    by code_simp
  have b: \<open>apply_patterns ''notifications-toasts hidden'' =
             ''notifications-toasts hidden hidden''\<close>
    by code_simp
  show ?thesis unfolding a b by simp
qed

text \<open>
  Claim C3, amended. A rule whose search text does not occur in the content leaves the
  content unchanged (\<open>str_replace\<close> is total: nothing is raised); content in which none
  of the seven search texts occurs is left unchanged by the rule set; and applying the
  rule set twice gives the same content as applying it once whenever none of the search
  texts occurs in the once-patched content.
\<close>

theorem apply_patterns_absent_noop:
  "(\<not> occurs old s \<longrightarrow> str_replace old new s = s) \<and>
   ((\<forall>r \<in> set patterns. \<not> occurs (fst r) c) \<longrightarrow> apply_patterns c = c) \<and>
   ((\<forall>r \<in> set patterns. \<not> occurs (fst r) (apply_patterns c)) \<longrightarrow>
      apply_patterns (apply_patterns c) = apply_patterns c)"
  using str_replace_absent[of old s new] apply_rules_absent[of patterns c]
        apply_rules_absent[of patterns "apply_patterns c"]
  unfolding apply_patterns_def by blast

theorem apply_patterns_absent_noop_witness:
  \<open>\<not> occurs ''<div>Pro Trial'' ''no match here'' \<and>
   str_replace ''<div>Pro Trial'' ''<div>Pro'' ''no match here'' = ''no match here'' \<and>
   list_all (\<lambda>r. \<not> occurs (fst r) ''py-1">Bypass-Version-Pin'') patterns \<and>
   apply_patterns ''py-1">Bypass-Version-Pin'' = ''py-1">Bypass-Version-Pin'' \<and>
   apply_patterns ''py-1">Auto-select'' = ''py-1">Bypass-Version-Pin'' \<and>
   apply_patterns (apply_patterns ''py-1">Auto-select'') = apply_patterns ''py-1">Auto-select''\<close>
proof -
  have h1: \<open>\<not> occurs ''<div>Pro Trial'' ''no match here''\<close> by code_simp
  have l2: \<open>list_all (\<lambda>r. \<not> occurs (fst r) ''py-1">Bypass-Version-Pin'') patterns\<close>
    by code_simp
  then have h2: \<open>\<forall>r \<in> set patterns. \<not> occurs (fst r) ''py-1">Bypass-Version-Pin''\<close>
    by (simp only: list_all_iff)
  have a: \<open>apply_patterns ''py-1">Auto-select'' = ''py-1">Bypass-Version-Pin''\<close>
    by code_simp
  from apply_patterns_absent_noop
         [of \<open>''<div>Pro Trial''\<close> \<open>''no match here''\<close> \<open>''<div>Pro''\<close>
             \<open>''py-1">Bypass-Version-Pin''\<close>]
       h1 h2 l2 a
  show ?thesis by simp
qed










section \<open>Properties of the Storage Mutator\<close>

lemma upsert_loop_committed:
  "committed (snd (upsert_loop e i ids c)) = committed c"
  by (induction e i ids c rule: upsert_loop.induct) (auto simp: execute_upsert_def)

lemma upsert_loop_pending:
  "fst (upsert_loop e i ids c) \<Longrightarrow> pending c = Some t \<Longrightarrow>
   pending (snd (upsert_loop e i ids c)) = Some (upsert_all ids t)"
  by (induction e i ids c arbitrary: t rule: upsert_loop.induct)
     (auto simp: execute_upsert_def split: if_splits)

lemma upsert_loop_pending_first:
  assumes "fst (upsert_loop e i ids c)" "pending c = None" "ids \<noteq> []"
  shows "pending (snd (upsert_loop e i ids c)) = Some (upsert_all ids (rows (committed c)))"
proof -
  obtain k v rest where ids: "ids = (k, v) # rest" using assms(3) by (cases ids) auto
  let ?c1 = "execute_upsert k v c"
  have p: "pending ?c1 = Some ((rows (committed c))(k \<mapsto> v))"
    using assms(2) by (simp add: execute_upsert_def)
  from assms(1) ids have ok: "fst (upsert_loop e (Suc i) rest ?c1)"
    and eq: "upsert_loop e i ids c = upsert_loop e (Suc i) rest ?c1"
    by (auto split: if_splits)
  show ?thesis
    unfolding eq using upsert_loop_pending[OF ok p] by (simp add: ids)
qed

lemma upsert_loop_fails:
  "k < length ids \<Longrightarrow> fails e (DbUpsert (i + k)) \<or> \<not> bindable (snd (ids ! k)) \<Longrightarrow>
   \<not> fst (upsert_loop e i ids c)"
proof (induction e i ids c arbitrary: k rule: upsert_loop.induct)
  case (1 e i c)
  then show ?case by simp
next
  case (2 e i key val updates c)
  show ?case
  proof (cases k)
    case 0
    with 2 show ?thesis by auto
  next
    case (Suc k')
    with 2 show ?thesis by (auto split: if_splits)
  qed
qed

lemma upsert_loop_ok:
  "(\<forall>k < length ids. \<not> fails e (DbUpsert (i + k)) \<and> bindable (snd (ids ! k))) \<Longrightarrow>
   fst (upsert_loop e i ids c)"
proof (induction e i ids c rule: upsert_loop.induct)
  case (1 e i c)
  then show ?case by simp
next
  case (2 e i key val updates c)
  from 2(2) have h0: "\<not> fails e (DbUpsert i) \<and> bindable val" by force
  have "\<forall>k < length updates. \<not> fails e (DbUpsert (Suc i + k)) \<and> bindable (snd (updates ! k))"
  proof (intro allI impI)
    fix k assume "k < length updates"
    then have "Suc k < length ((key, val) # updates)" by simp
    with 2(2) have "\<not> fails e (DbUpsert (i + Suc k)) \<and> bindable (snd (((key, val) # updates) ! Suc k))"
      by blast
    then show "\<not> fails e (DbUpsert (Suc i + k)) \<and> bindable (snd (updates ! k))" by simp
  qed
  with 2(1) h0 show ?case by simp
qed

lemma upsert_all_map_of:
  "distinct (map fst ids) \<Longrightarrow> upsert_all ids t = t ++ map_of ids"
proof (induction ids arbitrary: t)
  case Nil
  then show ?case by simp
next
  case (Cons a ids)
  obtain k v where a: "a = (k, v)" by (cases a)
  from Cons.prems a have d: "distinct (map fst ids)" and nk: "k \<notin> dom (map_of ids)"
    by (auto simp: dom_map_of_conv_image_fst)
  have "upsert_all (a # ids) t = upsert_all ids (t(k \<mapsto> v))"
    by (simp only: a upsert_all.simps)
  also have "\<dots> = t(k \<mapsto> v) ++ map_of ids" by (rule Cons.IH[OF d])
  also have "\<dots> = t ++ (map_of ids)(k \<mapsto> v)"
    using nk by (metis map_add_upd_left map_add_upd)
  also have "\<dots> = t ++ map_of (a # ids)" by (simp only: a map_of.simps fst_conv snd_conv)
  finally show ?case .
qed

lemma rows_connect: "rows (committed (connect db)) = rows db"
  by (cases db) (simp_all add: connect_def rows_def)

lemma created_conn:
  "committed (execute_create (connect db)) = ItemTable (rows db)"
  "pending (execute_create (connect db)) = None"
  by (simp_all add: execute_create_def rows_connect) (simp add: connect_def)

lemma commit_after_loop:
  assumes "fst (upsert_loop e i ids c)" "pending c = None" "committed c = ItemTable t"
  shows "committed (commit (snd (upsert_loop e i ids c))) = ItemTable (upsert_all ids t)"
proof (cases ids)
  case Nil
  with assms show ?thesis by (simp add: commit_def)
next
  case (Cons a rest)
  then have ne: "ids \<noteq> []" by simp
  have "pending (snd (upsert_loop e i ids c)) = Some (upsert_all ids (rows (committed c)))"
    by (rule upsert_loop_pending_first[OF assms(1,2) ne])
  then show ?thesis using assms(3) by (simp add: commit_def rows_def)
qed

lemma update_sqlite_db_cases:
  "update_sqlite_db e db ids = (False, db) \<or>
   update_sqlite_db e db ids = (False, committed (connect db)) \<or>
   update_sqlite_db e db ids = (False, ItemTable (rows db)) \<or>
   (fst (upsert_loop e 0 ids (execute_create (connect db))) \<and>
    snd (update_sqlite_db e db ids) = ItemTable (upsert_all ids (rows db)))"
proof -
  let ?c1 = "execute_create (connect db)"
  obtain ok c2 where l: "upsert_loop e 0 ids ?c1 = (ok, c2)" by (cases "upsert_loop e 0 ids ?c1")
  have c2: "committed c2 = ItemTable (rows db)"
    using upsert_loop_committed[of e 0 ids ?c1] l by (simp add: created_conn)
  show ?thesis
  proof (cases ok)
    case False
    with l c2 show ?thesis
      by (simp add: update_sqlite_db_def Let_def abandon_def)
  next
    case True
    with l have okl: "fst (upsert_loop e 0 ids ?c1)" by simp
    have c3: "committed (commit c2) = ItemTable (upsert_all ids (rows db))"
      using commit_after_loop[OF okl created_conn(2) created_conn(1)] l by simp
    from True l c2 c3 okl show ?thesis
      by (simp add: update_sqlite_db_def Let_def abandon_def)
  qed
qed

lemma update_sqlite_db_true:
  "fst (update_sqlite_db e db ids) \<Longrightarrow>
   snd (update_sqlite_db e db ids) = ItemTable (upsert_all ids (rows db))"
  using update_sqlite_db_cases[of e db ids] by auto

lemma update_sqlite_db_upsert_fails:
  assumes "k < length ids" "fails e (DbUpsert k) \<or> \<not> bindable (snd (ids ! k))"
  shows "\<not> fst (update_sqlite_db e db ids) \<and> rows (snd (update_sqlite_db e db ids)) = rows db"
proof -
  have nf: "\<not> fst (upsert_loop e 0 ids (execute_create (connect db)))"
    using upsert_loop_fails[of k ids e 0] assms by simp
  with update_sqlite_db_cases[of e db ids] show ?thesis
    by (auto simp: rows_connect) (simp add: rows_def)
qed

lemma update_sqlite_db_table:
  "\<not> fails e DbConnect \<Longrightarrow> \<not> fails e DbCreate \<Longrightarrow>
   \<exists>t. snd (update_sqlite_db e db ids) = ItemTable t"
proof -
  assume a: "\<not> fails e DbConnect" "\<not> fails e DbCreate"
  let ?c1 = "execute_create (connect db)"
  obtain ok c2 where l: "upsert_loop e 0 ids ?c1 = (ok, c2)" by (cases "upsert_loop e 0 ids ?c1")
  have c2: "committed c2 = ItemTable (rows db)"
    using upsert_loop_committed[of e 0 ids ?c1] l by (simp add: created_conn)
  show ?thesis
  proof (cases ok)
    case False
    with a l c2 show ?thesis by (simp add: update_sqlite_db_def Let_def abandon_def)
  next
    case True
    with l have okl: "fst (upsert_loop e 0 ids ?c1)" by simp
    have c3: "committed (commit c2) = ItemTable (upsert_all ids (rows db))"
      using commit_after_loop[OF okl created_conn(2) created_conn(1)] l by simp
    from a True l c2 c3 show ?thesis by (simp add: update_sqlite_db_def Let_def abandon_def)
  qed
qed

lemma update_sqlite_db_ok:
  assumes "\<forall>c. \<not> fails e c" "\<forall>kv \<in> set ids. bindable (snd kv)"
  shows "fst (update_sqlite_db e db ids)"
proof -
  have "fst (upsert_loop e 0 ids (execute_create (connect db)))"
    by (rule upsert_loop_ok) (use assms in auto)
  then show ?thesis using assms(1)
    by (auto simp: update_sqlite_db_def Let_def split: prod.splits bool.splits)
qed

lemma update_sqlite_db_rows:
  "rows (snd (update_sqlite_db e db ids)) = rows db \<or>
   rows (snd (update_sqlite_db e db ids)) = upsert_all ids (rows db)"
  using update_sqlite_db_cases[of e db ids]
  by (auto simp: rows_connect) (simp_all add: rows_def)

text \<open>
  Claim C4. For every identity set, database state and pattern of failing calls,
  \<open>update_sqlite_db\<close> leaves the rows of \<open>ItemTable\<close> either exactly as they were or
  with every pair of the set upserted: a successful call commits all of them, and if any
  single upsert fails the call returns \<open>False\<close> and the rows are unchanged (the pending
  transaction is discarded as a whole). When connecting and \<open>CREATE TABLE IF NOT
  EXISTS\<close> succeed the table exists afterwards; a run in which nothing fails succeeds;
  and for distinct keys the upserted rows are the old rows overridden by the set.
\<close>

theorem update_sqlite_db_all_or_nothing:
  "(rows (snd (update_sqlite_db e db ids)) = rows db \<or>
    rows (snd (update_sqlite_db e db ids)) = upsert_all ids (rows db)) \<and>
   (fst (update_sqlite_db e db ids) \<longrightarrow>
      snd (update_sqlite_db e db ids) = ItemTable (upsert_all ids (rows db))) \<and>
   ((\<exists>k < length ids. fails e (DbUpsert k) \<or> \<not> bindable (snd (ids ! k))) \<longrightarrow>
      \<not> fst (update_sqlite_db e db ids) \<and> rows (snd (update_sqlite_db e db ids)) = rows db) \<and>
   (\<not> fails e DbConnect \<and> \<not> fails e DbCreate \<longrightarrow>
      (\<exists>t. snd (update_sqlite_db e db ids) = ItemTable t)) \<and>
   ((\<forall>c. \<not> fails e c) \<and> (\<forall>kv \<in> set ids. bindable (snd kv)) \<longrightarrow>
      fst (update_sqlite_db e db ids)) \<and>
   (distinct (map fst ids) \<longrightarrow> upsert_all ids (rows db) = rows db ++ map_of ids)"
  using update_sqlite_db_rows[of e db ids] update_sqlite_db_true[of e db ids]
        update_sqlite_db_upsert_fails[of _ ids e db] update_sqlite_db_table[of e db ids]
        update_sqlite_db_ok[of e ids db] upsert_all_map_of[of ids "rows db"]
  by blast

theorem update_sqlite_db_all_or_nothing_witness:
  "(\<forall>c. \<not> fails example_env c) \<and> bindable (JString ''a'') \<and>
   distinct (map fst [(''telemetry.machineId'', JString ''a'')]) \<and>
   fst (update_sqlite_db example_env NoFile [(''telemetry.machineId'', JString ''a'')]) \<and>
   snd (update_sqlite_db example_env NoFile [(''telemetry.machineId'', JString ''a'')]) =
     ItemTable (rows NoFile ++ map_of [(''telemetry.machineId'', JString ''a'')]) \<and>
   fails (example_env\<lparr>fails := (\<lambda>c. c = DbUpsert 0)\<rparr>) (DbUpsert 0) \<and>
   \<not> fails (example_env\<lparr>fails := (\<lambda>c. c = DbUpsert 0)\<rparr>) DbConnect \<and>
   \<not> fails (example_env\<lparr>fails := (\<lambda>c. c = DbUpsert 0)\<rparr>) DbCreate \<and>
   \<not> fst (update_sqlite_db (example_env\<lparr>fails := (\<lambda>c. c = DbUpsert 0)\<rparr>) NoFile
           [(''telemetry.machineId'', JString ''a'')]) \<and>
   rows (snd (update_sqlite_db (example_env\<lparr>fails := (\<lambda>c. c = DbUpsert 0)\<rparr>) NoFile
           [(''telemetry.machineId'', JString ''a'')])) = rows NoFile \<and>
   (\<exists>t. snd (update_sqlite_db (example_env\<lparr>fails := (\<lambda>c. c = DbUpsert 0)\<rparr>) NoFile
           [(''telemetry.machineId'', JString ''a'')]) = ItemTable t)"
proof -
  let ?ids = "[(''telemetry.machineId'', JString ''a'')]"
  let ?e2 = "example_env\<lparr>fails := (\<lambda>c. c = DbUpsert 0)\<rparr>"
  have nf: "\<forall>c. \<not> fails example_env c" by (simp add: example_env_def)
  have b: "bindable (JString ''a'')" by simp
  then have ball: "\<forall>kv \<in> set ?ids. bindable (snd kv)" by simp
  have d: "distinct (map fst ?ids)" by simp
  have f2: "fails ?e2 (DbUpsert 0)" "\<not> fails ?e2 DbConnect" "\<not> fails ?e2 DbCreate"
    by simp_all
  have ex: "\<exists>k < length ?ids. fails ?e2 (DbUpsert k) \<or> \<not> bindable (snd (?ids ! k))"
    using f2(1) by auto
  note a = update_sqlite_db_all_or_nothing [of example_env NoFile ?ids]
  note c = update_sqlite_db_all_or_nothing [of ?e2 NoFile ?ids]
  from a nf ball have s1: "fst (update_sqlite_db example_env NoFile ?ids)" by blast
  with a d have s2: "snd (update_sqlite_db example_env NoFile ?ids) =
     ItemTable (rows NoFile ++ map_of ?ids)" by metis
  from c ex have s3: "\<not> fst (update_sqlite_db ?e2 NoFile ?ids)"
    and s4: "rows (snd (update_sqlite_db ?e2 NoFile ?ids)) = rows NoFile" by blast+
  from c f2 have s5: "\<exists>t. snd (update_sqlite_db ?e2 NoFile ?ids) = ItemTable t" by blast
  from nf b d s1 s2 f2 s3 s4 s5 show ?thesis by blast
qed


section \<open>Properties of reset and restore\<close>

lemma dict_update_other:
  "k \<notin> fst ` set other \<Longrightarrow> map_of (dict_update d other) k = map_of d k"
  unfolding dict_update_def
  by (induction other arbitrary: d) (auto simp: AList.update_conv')

lemma dict_update_new:
  "distinct (map fst other) \<Longrightarrow> (k, v) \<in> set other \<Longrightarrow>
   map_of (dict_update d other) k = Some v"
proof (induction other arbitrary: d)
  case Nil
  then show ?case by simp
next
  case (Cons a other)
  obtain k' v' where a: "a = (k', v')" by (cases a)
  have step: "dict_update d (a # other) = dict_update (AList.update k' v' d) other"
    by (simp add: dict_update_def a)
  show ?case
  proof (cases "(k, v) \<in> set other")
    case True
    with Cons show ?thesis unfolding step by simp
  next
    case False
    with Cons.prems a have kv: "k = k'" "v = v'" and nk: "k' \<notin> fst ` set other" by auto
    show ?thesis unfolding step kv
      by (simp add: dict_update_other[OF nk] AList.update_conv')
  qed
qed

lemma generate_new_ids_keys:
  "map fst (fst (generate_new_ids e rnd fs)) = identity_keys"
  by (simp add: generate_new_ids_def identity_keys_def Let_def)

lemma generate_new_ids_fs_indep:
  "fst (generate_new_ids e rnd fs) = fst (generate_new_ids e rnd fs')"
  by (simp add: generate_new_ids_def Let_def)

lemma reset_trace_shape:
  assumes "trace w = []"
  shows "trace (snd (reset_machine_ids e rnd w)) = [] \<or>
    (\<exists>bp. trace (snd (reset_machine_ids e rnd w)) = [CopyBackup (db_path e) bp, GenerateIds]) \<or>
    (\<exists>bp m b. trace (snd (reset_machine_ids e rnd w)) =
       [CopyBackup (db_path e) bp, GenerateIds, JsonDump (db_path e) m, UpdateSqlite b,
        UpdateSystemIds]) \<or>
    (\<exists>bp m b b'. trace (snd (reset_machine_ids e rnd w)) =
       [CopyBackup (db_path e) bp, GenerateIds, JsonDump (db_path e) m, UpdateSqlite b,
        UpdateSystemIds, ModifyWorkbench b', VersionGatePatch])"
  using assms
  by (simp add: reset_machine_ids_def Let_def log_def split: option.splits json.splits)

lemma reset_json_dump_written:
  assumes "trace w = []" "files w (db_path e) = Some raw"
    "json_loads e raw = Some (JObject cfg)"
    "JsonDump p j \<in> set (trace (snd (reset_machine_ids e rnd w)))"
  shows "p = db_path e \<and> j = JObject (dict_update cfg (fst (generate_new_ids e rnd (files w))))"
  using assms
  by (auto simp: reset_machine_ids_def generate_new_ids_def Let_def log_def
           split: option.splits if_splits)

lemma reset_json_dump_happens:
  assumes "files w (db_path e) = Some raw" "json_loads e raw = Some (JObject cfg)"
    "\<not> fails e StAccess" "\<not> fails e StRead" "\<not> fails e StCopy" "\<not> fails e StWrite"
  shows "JsonDump (db_path e) (JObject (dict_update cfg (fst (generate_new_ids e rnd (files w)))))
           \<in> set (trace (snd (reset_machine_ids e rnd w)))"
  using assms
  by (auto simp: reset_machine_ids_def generate_new_ids_def Let_def log_def
           split: option.splits)

lemma update_current_file_written:
  assumes "files w (db_path e) = Some raw" "json_loads e raw = Some (JObject cur)"
    "fst (update_current_file e w ids)"
  shows "files (snd (update_current_file e w ids)) (db_path e) =
           Some (json_dumps e (JObject (dict_update cur ids))) \<and>
         trace (snd (update_current_file e w ids)) =
           trace w @ [CopyBackup (db_path e) (db_path e @ ''.restore_bak.'' @ timestamp e),
                      JsonDump (db_path e) (JObject (dict_update cur ids))]"
  using assms
  by (auto simp: update_current_file_def Let_def log_def split: option.splits if_splits)

lemma update_current_file_ok:
  assumes "files w (db_path e) = Some raw" "json_loads e raw = Some (JObject cur)"
    "\<not> fails e StRead" "\<not> fails e StCopy" "\<not> fails e StWrite"
  shows "fst (update_current_file e w ids)"
  using assms by (simp add: update_current_file_def Let_def log_def)

lemma reset_no_sqlite_if_write_fails:
  assumes "trace w = []" "fails e StWrite"
  shows "UpdateSqlite b \<notin> set (trace (snd (reset_machine_ids e rnd w)))"
  using assms
  by (auto simp: reset_machine_ids_def Let_def log_def split: option.splits json.splits if_splits)

lemma reset_sqlite_after_json:
  assumes "trace w = []" "trace (snd (reset_machine_ids e rnd w)) = pre @ UpdateSqlite b # post"
  shows "\<exists>m. JsonDump (db_path e) m \<in> set pre"
proof -
  note sh = reset_trace_shape[OF assms(1), of e rnd]
  from sh assms(2) show ?thesis
    by (elim disjE exE) (auto simp: append_eq_Cons_conv Cons_eq_append_conv)
qed

lemma reset_no_json_no_sqlite:
  assumes "trace w = []" "\<forall>m. JsonDump (db_path e) m \<notin> set (trace (snd (reset_machine_ids e rnd w)))"
  shows "UpdateSqlite b \<notin> set (trace (snd (reset_machine_ids e rnd w)))"
  using reset_trace_shape[OF assms(1), of e rnd] assms(2) by auto

lemma reset_full_trace:
  assumes "trace w = []" "files w (db_path e) = Some raw" "json_loads e raw = Some (JObject cfg)"
    "\<forall>c. \<not> fails e c" "workbench_path e = Some wp"
  shows "\<exists>bp m b b'. trace (snd (reset_machine_ids e rnd w)) =
       [CopyBackup (db_path e) bp, GenerateIds, JsonDump (db_path e) m, UpdateSqlite b,
        UpdateSystemIds, ModifyWorkbench b', VersionGatePatch] \<and>
       fst (reset_machine_ids e rnd w)"
  using assms by (simp add: reset_machine_ids_def Let_def log_def)


lemma extract_ids_result:
  assumes "\<not> fails e BkRead" "files w bp = Some raw" "json_loads e raw = Some (JObject d)"
  shows "extract_ids_from_backup e w bp =
           (Some (backup_ids d),
            w\<lparr>trace := trace w @ map (\<lambda>kv. MissingId (fst kv))
                                    (filter (\<lambda>kv. \<not> truthy (snd kv)) (backup_ids d))\<rparr>)"
  using assms by (simp add: extract_ids_from_backup_def Let_def)

lemma backup_ids_keys: "map fst (backup_ids d) = identity_keys"
  by (simp add: backup_ids_def identity_keys_def)

lemma backup_ids_service_default:
  "map_of d ''storage.serviceMachineId'' = None \<Longrightarrow>
   map_of (backup_ids d) ''storage.serviceMachineId'' =
     Some (case map_of d ''telemetry.devDeviceId'' of None \<Rightarrow> JString [] | Some v \<Rightarrow> v)"
  by (simp add: backup_ids_def dict_get_def)





lemma modify_workbench_js_frame:
  assumes "q \<noteq> f" "q \<noteq> tmp_name e" "q \<noteq> f @ ''.backup.'' @ timestamp e"
  shows "snd (modify_workbench_js e fs f) q = fs q"
  using assms
  by (auto simp: modify_workbench_js_def unlink_tmp_def Let_def split: option.splits if_splits)

lemma reset_file_written:
  assumes "files w (db_path e) = Some raw" "json_loads e raw = Some (JObject cfg)"
    and "\<not> fails e StAccess" "\<not> fails e StRead" "\<not> fails e StCopy" "\<not> fails e StWrite"
    and "workbench_path e \<noteq> Some (db_path e)" "tmp_name e \<noteq> db_path e"
    and "map_option (\<lambda>wp. wp @ ''.backup.'' @ timestamp e) (workbench_path e) \<noteq> Some (db_path e)"
  shows "files (snd (reset_machine_ids e rnd w)) (db_path e) =
           Some (json_dumps e
                   (JObject (dict_update cfg (fst (generate_new_ids e rnd (files w))))))"
proof (cases "workbench_path e")
  case None
  with assms(1-6) show ?thesis
    by (simp add: reset_machine_ids_def generate_new_ids_def Let_def log_def)
next
  case (Some wp)
  with assms(7-9) have d: "db_path e \<noteq> wp" "db_path e \<noteq> tmp_name e"
    "db_path e \<noteq> wp @ ''.backup.'' @ timestamp e" by auto
  from Some assms(1-6) show ?thesis
    by (simp add: reset_machine_ids_def generate_new_ids_def Let_def log_def
          modify_workbench_js_frame[OF d])
qed

text \<open>
  Claim C5. \<open>dict_update\<close> (Python's \<open>config.update(new_ids)\<close>) leaves the value of
  every key outside the identity set as it was and gives each identity key its new
  value. In \<open>reset_machine_ids\<close> the only document dumped is the storage object merged
  with the generated identity set, whose keys are the five identity keys, and it is
  dumped whenever the storage steps do not fail; when in addition the workbench file,
  its backup and the temporary file are other paths than the storage file, the storage
  file holds that dump when \<open>reset_machine_ids\<close> returns, whatever fails afterwards.
  \<open>update_current_file\<close>, when it succeeds, leaves in the storage file the dump of the
  current object merged with the restored identity set.
\<close>

theorem json_merge_preserves_other_keys:
  "(k \<notin> fst ` set ids \<longrightarrow> map_of (dict_update d ids) k = map_of d k) \<and>
   (distinct (map fst ids) \<and> (k', v') \<in> set ids \<longrightarrow>
      map_of (dict_update d ids) k' = Some v') \<and>
   (trace w = [] \<and> files w (db_path e) = Some raw \<and>
    json_loads e raw = Some (JObject cfg) \<and>
    JsonDump p j \<in> set (trace (snd (reset_machine_ids e rnd w))) \<longrightarrow>
      p = db_path e \<and>
      j = JObject (dict_update cfg (fst (generate_new_ids e rnd (files w)))) \<and>
      map fst (fst (generate_new_ids e rnd (files w))) = identity_keys) \<and>
   (files w (db_path e) = Some raw \<and> json_loads e raw = Some (JObject cfg) \<and>
    \<not> fails e StAccess \<and> \<not> fails e StRead \<and> \<not> fails e StCopy \<and> \<not> fails e StWrite \<longrightarrow>
      JsonDump (db_path e) (JObject (dict_update cfg (fst (generate_new_ids e rnd (files w)))))
        \<in> set (trace (snd (reset_machine_ids e rnd w)))) \<and>
   (files w (db_path e) = Some raw \<and> json_loads e raw = Some (JObject cfg) \<and>
    \<not> fails e StAccess \<and> \<not> fails e StRead \<and> \<not> fails e StCopy \<and> \<not> fails e StWrite \<and>
    workbench_path e \<noteq> Some (db_path e) \<and> tmp_name e \<noteq> db_path e \<and>
    map_option (\<lambda>wp. wp @ ''.backup.'' @ timestamp e) (workbench_path e) \<noteq>
      Some (db_path e) \<longrightarrow>
      files (snd (reset_machine_ids e rnd w)) (db_path e) =
        Some (json_dumps e
                (JObject (dict_update cfg (fst (generate_new_ids e rnd (files w))))))) \<and>
   (files w (db_path e) = Some raw \<and> json_loads e raw = Some (JObject cfg) \<and>
    fst (update_current_file e w ids) \<longrightarrow>
      files (snd (update_current_file e w ids)) (db_path e) =
        Some (json_dumps e (JObject (dict_update cfg ids)))) \<and>
   (files w (db_path e) = Some raw \<and> json_loads e raw = Some (JObject cfg) \<and>
    \<not> fails e StRead \<and> \<not> fails e StCopy \<and> \<not> fails e StWrite \<longrightarrow>
      fst (update_current_file e w ids))"
  using dict_update_other[of k ids d] dict_update_new[of ids k' v' d]
        reset_json_dump_written[of w e raw cfg p j rnd]
        generate_new_ids_keys[of e rnd "files w"]
        reset_json_dump_happens[of w e raw cfg rnd]
        reset_file_written[of w e raw cfg rnd]
        update_current_file_written[of w e raw cfg ids]
        update_current_file_ok[of w e raw cfg ids]
  by blast

theorem json_merge_preserves_other_keys_witness:
  "''foo'' \<notin> fst ` set [(''telemetry.devDeviceId'', JString ''abc'')] \<and>
   map_of (dict_update [(''foo'', JString ''bar'')] [(''telemetry.devDeviceId'', JString ''abc'')])
     ''foo'' = Some (JString ''bar'') \<and>
   distinct (map fst [(''telemetry.devDeviceId'', JString ''abc'')]) \<and>
   map_of (dict_update [(''foo'', JString ''bar'')] [(''telemetry.devDeviceId'', JString ''abc'')])
     ''telemetry.devDeviceId'' = Some (JString ''abc'') \<and>
   trace example_world = [] \<and>
   files example_world (db_path example_env) = Some storage_text \<and>
   json_loads example_env storage_text = Some (JObject [(''foo'', JString ''bar'')]) \<and>
   JsonDump (db_path example_env)
     (JObject (dict_update [(''foo'', JString ''bar'')]
        (fst (generate_new_ids example_env example_rnd (files example_world)))))
     \<in> set (trace (snd (reset_machine_ids example_env example_rnd example_world))) \<and>
   map fst (fst (generate_new_ids example_env example_rnd (files example_world))) =
     identity_keys \<and>
   workbench_path example_env \<noteq> Some (db_path example_env) \<and>
   tmp_name example_env \<noteq> db_path example_env \<and>
   map_option (\<lambda>wp. wp @ ''.backup.'' @ timestamp example_env) (workbench_path example_env) \<noteq>
     Some (db_path example_env) \<and>
   files (snd (reset_machine_ids example_env example_rnd example_world)) (db_path example_env) =
     Some (json_dumps example_env
             (JObject (dict_update [(''foo'', JString ''bar'')]
                (fst (generate_new_ids example_env example_rnd (files example_world)))))) \<and>
   fst (update_current_file example_env example_world
          [(''telemetry.devDeviceId'', JString ''abc'')]) \<and>
   files (snd (update_current_file example_env example_world
                 [(''telemetry.devDeviceId'', JString ''abc'')])) (db_path example_env) =
     Some (json_dumps example_env
             (JObject (dict_update [(''foo'', JString ''bar'')]
                         [(''telemetry.devDeviceId'', JString ''abc'')])))"
proof -
  let ?ids = "[(''telemetry.devDeviceId'', JString ''abc'')]"
  let ?cfg = "[(''foo'', JString ''bar'')]"
  have h1: "''foo'' \<notin> fst ` set ?ids" by simp
  have h2: "distinct (map fst ?ids)" "(''telemetry.devDeviceId'', JString ''abc'') \<in> set ?ids"
    by simp_all
  have t: "trace example_world = []" by (simp add: example_world_def)
  have f: "files example_world (db_path example_env) = Some storage_text"
    by (simp add: example_world_def example_env_def)
  have l: "json_loads example_env storage_text = Some (JObject ?cfg)"
    by (simp add: example_env_def example_loads_def)
  have nf: "\<not> fails example_env StAccess" "\<not> fails example_env StRead"
    "\<not> fails example_env StCopy" "\<not> fails example_env StWrite"
    by (simp_all add: example_env_def)
  note a = json_merge_preserves_other_keys
    [where k = "''foo''" and ids = ?ids and d = ?cfg and k' = "''telemetry.devDeviceId''"
       and v' = "JString ''abc''" and w = example_world and e = example_env
       and raw = storage_text and cfg = ?cfg and rnd = example_rnd
       and p = "db_path example_env"
       and j = "JObject (dict_update ?cfg
                  (fst (generate_new_ids example_env example_rnd (files example_world))))"]
  from a h1 have s1: "map_of (dict_update ?cfg ?ids) ''foo'' = Some (JString ''bar'')" by simp
  from a h2 have s2: "map_of (dict_update ?cfg ?ids) ''telemetry.devDeviceId'' =
     Some (JString ''abc'')" by blast
  from a f l nf have s3: "JsonDump (db_path example_env)
     (JObject (dict_update ?cfg
        (fst (generate_new_ids example_env example_rnd (files example_world)))))
     \<in> set (trace (snd (reset_machine_ids example_env example_rnd example_world)))" by blast
  from a t f l s3 have s4:
    "map fst (fst (generate_new_ids example_env example_rnd (files example_world))) =
       identity_keys" by blast
  have ds: "workbench_path example_env \<noteq> Some (db_path example_env)"
    "tmp_name example_env \<noteq> db_path example_env"
    "map_option (\<lambda>wp. wp @ ''.backup.'' @ timestamp example_env)
       (workbench_path example_env) \<noteq> Some (db_path example_env)"
    by (simp_all add: example_env_def)
  from a f l nf ds have s7:
    "files (snd (reset_machine_ids example_env example_rnd example_world))
       (db_path example_env) =
     Some (json_dumps example_env
             (JObject (dict_update ?cfg
                (fst (generate_new_ids example_env example_rnd (files example_world))))))"
    by blast
  from a f l nf have s5: "fst (update_current_file example_env example_world ?ids)" by blast
  from a f l s5 have s6:
    "files (snd (update_current_file example_env example_world ?ids)) (db_path example_env) =
       Some (json_dumps example_env (JObject (dict_update ?cfg ?ids)))" by blast
  from h1 s1 h2(1) s2 t f l s3 s4 ds s7 s5 s6 show ?thesis by blast
qed

text \<open>
  Claim C6. In every run of \<open>reset_machine_ids\<close> (started with an empty trace), whatever
  fails: a call of \<open>update_sqlite_db\<close> is preceded in the trace by the dump of the
  storage file; if the dump raises, or if no dump happened for any other reason, the
  database update is never called; and a run in which nothing fails dumps the storage
  file and then updates the database.
\<close>

theorem reset_json_before_sqlite:
  assumes "trace w = []"
  shows
    "(trace (snd (reset_machine_ids e rnd w)) = pre @ UpdateSqlite b # post \<longrightarrow>
        (\<exists>m. JsonDump (db_path e) m \<in> set pre)) \<and>
     (fails e StWrite \<longrightarrow> UpdateSqlite b \<notin> set (trace (snd (reset_machine_ids e rnd w)))) \<and>
     ((\<forall>m. JsonDump (db_path e) m \<notin> set (trace (snd (reset_machine_ids e rnd w)))) \<longrightarrow>
        UpdateSqlite b \<notin> set (trace (snd (reset_machine_ids e rnd w)))) \<and>
     (files w (db_path e) = Some raw \<and> json_loads e raw = Some (JObject cfg) \<and>
      (\<forall>c. \<not> fails e c) \<and> workbench_path e = Some wp \<longrightarrow>
        (\<exists>bp m b1 b2. trace (snd (reset_machine_ids e rnd w)) =
           [CopyBackup (db_path e) bp, GenerateIds, JsonDump (db_path e) m, UpdateSqlite b1,
            UpdateSystemIds, ModifyWorkbench b2, VersionGatePatch] \<and>
           fst (reset_machine_ids e rnd w)))"
  using reset_sqlite_after_json[OF assms, of e rnd pre b post]
        reset_no_sqlite_if_write_fails[OF assms, of e b rnd]
        reset_no_json_no_sqlite[OF assms, of e rnd b]
        reset_full_trace[OF assms, of e raw cfg wp rnd]
  by blast

theorem reset_json_before_sqlite_witness:
  "trace example_world = [] \<and>
   (\<exists>pre b post m.
      trace (snd (reset_machine_ids example_env example_rnd example_world)) =
        pre @ UpdateSqlite b # post \<and>
      JsonDump (db_path example_env) m \<in> set pre) \<and>
   fails (example_env\<lparr>fails := (\<lambda>c. c = StWrite)\<rparr>) StWrite \<and>
   UpdateSqlite True \<notin>
     set (trace (snd (reset_machine_ids (example_env\<lparr>fails := (\<lambda>c. c = StWrite)\<rparr>)
                        example_rnd example_world)))"
proof -
  let ?e2 = "example_env\<lparr>fails := (\<lambda>c. c = StWrite)\<rparr>"
  have t: "trace example_world = []" by (simp add: example_world_def)
  have f: "files example_world (db_path example_env) = Some storage_text"
    by (simp add: example_world_def example_env_def)
  have l: "json_loads example_env storage_text = Some (JObject [(''foo'', JString ''bar'')])"
    by (simp add: example_env_def example_loads_def)
  have nf: "\<forall>c. \<not> fails example_env c" "workbench_path example_env = Some ''workbench.js''"
    by (simp_all add: example_env_def)
  have f2: "fails ?e2 StWrite" by simp
  from reset_json_before_sqlite[OF t, of example_env example_rnd _ _ _ storage_text
         "[(''foo'', JString ''bar'')]" "''workbench.js''"] f l nf
  obtain bp m b1 b2 where tr:
    "trace (snd (reset_machine_ids example_env example_rnd example_world)) =
       [CopyBackup (db_path example_env) bp, GenerateIds, JsonDump (db_path example_env) m,
        UpdateSqlite b1, UpdateSystemIds, ModifyWorkbench b2, VersionGatePatch]"
    by blast
  let ?pre = "[CopyBackup (db_path example_env) bp, GenerateIds, JsonDump (db_path example_env) m]"
  let ?post = "[UpdateSystemIds, ModifyWorkbench b2, VersionGatePatch]"
  have sp: "trace (snd (reset_machine_ids example_env example_rnd example_world)) =
     ?pre @ UpdateSqlite b1 # ?post" using tr by simp
  from reset_json_before_sqlite[OF t, of example_env example_rnd ?pre b1 ?post] sp
  have "\<exists>m. JsonDump (db_path example_env) m \<in> set ?pre" by blast
  with sp have s1: "\<exists>pre b post m.
      trace (snd (reset_machine_ids example_env example_rnd example_world)) =
        pre @ UpdateSqlite b # post \<and>
      JsonDump (db_path example_env) m \<in> set pre" by blast
  from reset_json_before_sqlite[OF t, of ?e2 example_rnd _ True] f2
  have s2: "UpdateSqlite True \<notin>
     set (trace (snd (reset_machine_ids ?e2 example_rnd example_world)))" by blast
  from t s1 f2 s2 show ?thesis by blast
qed





text \<open>
  Claim C10. For a backup file that is read and decoded as an object without the key
  \<open>storage.serviceMachineId\<close>, \<open>extract_ids_from_backup\<close> returns the five identifiers, and
  the entry \<open>storage.serviceMachineId\<close> is the document's \<open>telemetry.devDeviceId\<close> value,
  or the empty string when that key is absent too.
\<close>

theorem extract_ids_service_machine_id_default:
  assumes "\<not> fails e BkRead" and "files w bp = Some raw"
    and "json_loads e raw = Some (JObject d)"
    and "map_of d ''storage.serviceMachineId'' = None"
  shows "\<exists>ids. fst (extract_ids_from_backup e w bp) = Some ids \<and>
           map fst ids = identity_keys \<and>
           map_of ids ''storage.serviceMachineId'' =
             Some (case map_of d ''telemetry.devDeviceId'' of
                     None \<Rightarrow> JString [] | Some v \<Rightarrow> v)"
  using extract_ids_result[OF assms(1-3)] backup_ids_keys[of d]
        backup_ids_service_default[OF assms(4)]
  by simp

theorem extract_ids_service_machine_id_default_witness:
  "\<not> fails example_env BkRead \<and>
   files example_world ''storage.json.bak.2'' = Some old_backup_text \<and>
   json_loads example_env old_backup_text =
     Some (JObject [(''telemetry.devDeviceId'', JString ''abc'')]) \<and>
   map_of [(''telemetry.devDeviceId'', JString ''abc'')] ''storage.serviceMachineId'' = None \<and>
   (\<exists>ids. fst (extract_ids_from_backup example_env example_world ''storage.json.bak.2'') =
            Some ids \<and>
          map fst ids = identity_keys \<and>
          map_of ids ''storage.serviceMachineId'' = Some (JString ''abc''))"
proof -
  have h1: "\<not> fails example_env BkRead" by (simp add: example_env_def)
  have h2: "files example_world ''storage.json.bak.2'' = Some old_backup_text"
    by (simp add: example_world_def)
  have ne: "old_backup_text \<noteq> storage_text" "old_backup_text \<noteq> empty_backup_text"
    by (simp_all add: old_backup_text_def storage_text_def empty_backup_text_def)
  have h3: "json_loads example_env old_backup_text =
     Some (JObject [(''telemetry.devDeviceId'', JString ''abc'')])"
    using ne by (simp add: example_env_def example_loads_def)
  have h4: "map_of [(''telemetry.devDeviceId'', JString ''abc'')] ''storage.serviceMachineId'' = None"
    by simp
  from extract_ids_service_machine_id_default [OF h1 h2 h3 h4] h1 h2 h3 h4
  show ?thesis by simp
qed

end
